theory Spec2Isabelle
  imports Main "HOL-Library.AList" "HOL-Library.Word"
begin

unbundle bit_operations_syntax

section \<open>Objects of the PDF structure layer\<close>

text \<open>
  Package pdfstruct: an Object is nil, bool, int, float64, string, []byte (hex string),
  Name, Array, Dict, Stream or Reference.  Bytes are \<^typ>\<open>char\<close>, byte slices and Go
  strings are \<^typ>\<open>string\<close>.  Go's int is modelled by \<^typ>\<open>int\<close>.  A float64 is its
  64-bit pattern; such values are only ever produced by strconv.ParseFloat.

  A Dict is a Go map from Name to Object.  It is modelled as an association list with
  distinct keys: lookup is \<^const>\<open>map_of\<close>, assignment \<open>d[k] = v\<close> is
  \<^const>\<open>AList.update\<close>, \<open>delete(d, k)\<close> is \<^const>\<open>AList.delete\<close>.  The order of the
  list is the order in which a \<open>range\<close> loop visits the keys (unspecified in Go).
\<close>

type_synonym float64 = "64 word"

record Reference =
  Number :: int
  Generation :: int

datatype Object =
    ONull
  | OBool bool
  | OInt int
  | OReal float64
  | OString string
  | OHex string
  | OName string
  | OArray "Object list"
  | ODict "(string \<times> Object) list"
  | OStream "(string \<times> Object) list" string
  | ORef Reference

type_synonym Dict = "(string \<times> Object) list"

text \<open>Indexing a Dict: a missing key reads as nil, as in Go.\<close>

definition dictGet :: "Dict \<Rightarrow> string \<Rightarrow> Object" where
  "dictGet d k = (case map_of d k of None \<Rightarrow> ONull | Some v \<Rightarrow> v)"

record Stream =
  Dict :: Dict
  Data :: string

text \<open>
  Errors carry the format string of the Go source (arguments are not rendered).  A
  run-time panic is not an error value in Go; it unwinds through every caller, so the
  wrappers built with fmt.Errorf leave it alone.
\<close>

datatype error = Panic string | Err string | Wrap string error

fun wrap :: "string \<Rightarrow> error \<Rightarrow> error" where
  "wrap m (Panic s) = Panic s"
| "wrap m e = Wrap m e"

definition EOF :: error where
  "EOF = Err ''EOF''"

text \<open>
  The parts of the Go standard library that are taken as given: strconv.ParseFloat, the
  zlib decoder, and \<open>fmt.Sscanf(s, "%d %d", &start, &count)\<close>, which gives two
  integers when it returns 2 and no error (\<open>None\<close> is an error return).
\<close>

record stdlib =
  ParseFloat :: "string \<Rightarrow> float64 option"
  zlibInflate :: "string \<Rightarrow> string option"
  SscanfDD :: "string \<Rightarrow> (int \<times> int) option"

section \<open>Character classes\<close>

definition nonRegularChars :: string where
  "nonRegularChars = [CHR 0x00, CHR 0x09, CHR 0x0A, CHR 0x0C, CHR 0x0D] @ '' ()<>[]{}/%''"

definition isRegularChar :: "char \<Rightarrow> bool" where
  "isRegularChar b \<longleftrightarrow> b \<notin> set nonRegularChars"

definition whitespace :: string where
  "whitespace = [CHR 0x20, CHR 0x09, CHR 0x0D, CHR 0x0A, CHR 0x0C, CHR 0x00]"

definition isDigit :: "char \<Rightarrow> bool" where
  "isDigit c \<longleftrightarrow> c \<in> set ''0123456789''"

text \<open>bytes.IndexAny for a set of ASCII characters: first position, or -1.\<close>

fun IndexAny :: "string \<Rightarrow> string \<Rightarrow> int" where
  "IndexAny [] chars = -1"
| "IndexAny (c # cs) chars =
     (if c \<in> set chars then 0
      else (let i = IndexAny cs chars in if i < 0 then -1 else i + 1))"

definition HasPrefix :: "string \<Rightarrow> string \<Rightarrow> bool" where
  "HasPrefix s pre \<longleftrightarrow> take (length pre) s = pre"

text \<open>Value of a hexadecimal digit, as the three-way switches of stHex and stName.\<close>

definition hexDigit :: "char \<Rightarrow> nat option" where
  "hexDigit c =
     (if c \<in> set ''0123456789'' then Some (of_char c - of_char CHR ''0'')
      else if c \<in> set ''ABCDEF'' then Some (of_char c - of_char CHR ''A'' + 10)
      else if c \<in> set ''abcdef'' then Some (of_char c - of_char CHR ''a'' + 10)
      else None)"

definition digitVal :: "char \<Rightarrow> int" where
  "digitVal c = int (of_char c) - int (of_char CHR ''0'')"

text \<open>
  strconv.Atoi on a 64-bit platform: optional sign, at least one decimal digit, nothing
  else.  An out-of-range value is returned clamped, together with an error.
\<close>

definition maxInt :: int where
  "maxInt = 2 ^ 63 - 1"

definition Atoi :: "string \<Rightarrow> int \<times> error option" where
  "Atoi s =
     (let neg = (s \<noteq> [] \<and> hd s = CHR ''-'');
          ds = (if s \<noteq> [] \<and> (hd s = CHR ''-'' \<or> hd s = CHR ''+'') then tl s else s)
      in if ds = [] \<or> \<not> list_all isDigit ds then (0, Some (Err ''invalid syntax''))
         else (let v = foldl (\<lambda>n c. n * 10 + digitVal c) 0 ds;
                   v' = (if neg then - v else v)
               in if v' > maxInt then (maxInt, Some (Err ''value out of range''))
                  else if v' < - maxInt - 1 then (- maxInt - 1, Some (Err ''value out of range''))
                  else (v', None)))"

section \<open>The parser state\<close>

text \<open>
  The struct \<open>parser\<close>.  The field \<open>more\<close> is a closure or nil.  The only closure is the
  one of readObjectAt, which reads the file in blocks of 256 bytes from a moving
  position; it is represented by the part of the file not yet read.
\<close>

record parser =
  pby :: string
  pmore :: "string option"
  paccum :: string
  pparens :: int
  poffset :: int

datatype statefunc =
    StStart | StComment | StString | StStringEsc | StHex | StName | StWord
  | StNumObjRef | StNumber | StArray | StDict

text \<open>
  What a state function returns: the next state, or nil with an object, or nil with an
  error.
\<close>

datatype step = Next statefunc | Done Object | Fail error

text \<open>
  \<open>p.by, err = p.more(p.by)\<close>: calling a nil function panics; at the end of the file the
  closure returns \<open>(nil, err)\<close>, so the buffer is lost.
\<close>

definition callMore :: "parser \<Rightarrow> error option \<times> parser" where
  "callMore p =
     (case pmore p of
        None \<Rightarrow> (Some (Panic ''call of nil func''), p)
      | Some rest \<Rightarrow>
          if rest = [] then (Some EOF, p\<lparr>pby := []\<rparr>)
          else (None, p\<lparr>pby := pby p @ take 256 rest, pmore := Some (drop 256 rest)\<rparr>))"

definition unread :: "parser \<Rightarrow> nat" where
  "unread p = (case pmore p of None \<Rightarrow> 0 | Some rest \<Rightarrow> length rest)"

function p_extend :: "parser \<Rightarrow> int \<Rightarrow> error option \<times> parser" where
  "p_extend p sz =
     (if int (length (pby p)) < sz then
        (if pmore p = None then (Some EOF, p)
         else (case callMore p of
                 (Some e, p') \<Rightarrow> (Some e, p')
               | (None, p') \<Rightarrow> p_extend p' sz))
      else (None, p))"
  by pat_completeness auto
termination
  by (relation "measure (\<lambda>(p, sz). unread p)")
     (auto simp: callMore_def unread_def split: option.splits if_splits)

declare p_extend.simps [simp del]

text \<open>
  \<open>skip\<close> is only called with a size that the preceding checks have shown to be within
  the buffer.
\<close>

definition skip :: "parser \<Rightarrow> int \<Rightarrow> parser" where
  "skip p sz = p\<lparr>poffset := poffset p + sz, pby := drop (nat sz) (pby p)\<rparr>"

lemma extend_total:
  "p_extend p sz = (None, p') \<Longrightarrow> length (pby p') + unread p' = length (pby p) + unread p"
proof (induction p sz rule: p_extend.induct)
  case (1 p sz)
  show ?case
  proof (cases "int (length (pby p)) < sz")
    case False
    with "1.prems" show ?thesis by (simp add: p_extend.simps)
  next
    case True
    with "1.prems" obtain rest where r: "pmore p = Some rest"
      by (cases "pmore p") (auto simp: p_extend.simps)
    with True "1.prems" have ne: "rest \<noteq> []"
      by (auto simp: p_extend.simps [of p] callMore_def split: if_splits)
    let ?q = "p\<lparr>pby := pby p @ take 256 rest, pmore := Some (drop 256 rest)\<rparr>"
    from r ne have cm: "callMore p = (None, ?q)" by (simp add: callMore_def)
    with True r "1.prems" have ex: "p_extend ?q sz = (None, p')"
      by (simp add: p_extend.simps [of p])
    from r have "pmore p \<noteq> None" by simp
    from "1.IH" [OF True this cm [symmetric] refl ex]
    have "length (pby p') + unread p' = length (pby ?q) + unread ?q" .
    with r show ?thesis by (simp add: unread_def)
  qed
qed

lemma extend_length:
  "p_extend p sz = (None, p') \<Longrightarrow> sz \<le> int (length (pby p'))"
proof (induction p sz rule: p_extend.induct)
  case (1 p sz)
  show ?case
  proof (cases "int (length (pby p)) < sz")
    case False
    with "1.prems" show ?thesis by (simp add: p_extend.simps)
  next
    case True
    with "1.prems" obtain rest where r: "pmore p = Some rest"
      by (cases "pmore p") (auto simp: p_extend.simps)
    with True "1.prems" have ne: "rest \<noteq> []"
      by (auto simp: p_extend.simps [of p] callMore_def split: if_splits)
    let ?q = "p\<lparr>pby := pby p @ take 256 rest, pmore := Some (drop 256 rest)\<rparr>"
    from r ne have cm: "callMore p = (None, ?q)" by (simp add: callMore_def)
    with True r "1.prems" have ex: "p_extend ?q sz = (None, p')"
      by (simp add: p_extend.simps [of p])
    from r have "pmore p \<noteq> None" by simp
    from "1.IH" [OF True this cm [symmetric] refl ex] show ?thesis .
  qed
qed

lemma extend_ok:
  "p_extend p sz = (None, p') \<Longrightarrow>
     length (pby p') + unread p' = length (pby p) + unread p \<and> sz \<le> int (length (pby p'))"
  by (simp add: extend_total extend_length)

function skipWhitespace :: "parser \<Rightarrow> error option \<times> parser" where
  "skipWhitespace p =
     (case p_extend p 1 of
        (Some e, p') \<Rightarrow> (Some e, p')
      | (None, p') \<Rightarrow>
          if pby p' ! 0 \<notin> set whitespace then (None, p') else skipWhitespace (skip p' 1))"
  by pat_completeness auto
termination
  by (relation "measure (\<lambda>p. length (pby p) + unread p)")
     (auto simp: skip_def unread_def dest!: extend_ok [OF sym])

declare skipWhitespace.simps [simp del]

section \<open>The state functions of the parser\<close>

definition stStart :: "parser \<Rightarrow> step \<times> parser" where
  "stStart p =
     (case p_extend p 1 of
        (Some e, p) \<Rightarrow> (Fail e, p)
      | (None, p) \<Rightarrow>
          (let c = pby p ! 0 in
           if c \<in> set [CHR 0x00, CHR 0x09, CHR 0x0A, CHR 0x0C, CHR 0x0D, CHR 0x20]
             then (Next StStart, skip p 1)
           else if c = CHR ''%'' then (Next StComment, p)
           else if c = CHR ''('' then (Next StString, (skip p 1)\<lparr>paccum := [], pparens := 1\<rparr>)
           else if c = CHR ''<'' then
             (case p_extend p 2 of
                (Some e, p) \<Rightarrow> (Fail e, p)
              | (None, p) \<Rightarrow>
                  if pby p ! 1 = CHR ''<'' then (Next StDict, skip p 2)
                  else (Next StHex, (skip p 1)\<lparr>paccum := []\<rparr>))
           else if c = CHR ''>'' then (Fail (Err ''unexpected >''), p)
           else if c = CHR ''/'' then (Next StName, (skip p 1)\<lparr>paccum := []\<rparr>)
           else if c = CHR ''['' then (Next StArray, skip p 1)
           else if c = CHR '']'' then (Fail (Err ''unexpected ]''), p)
           else if c \<in> set ''-+0123456789'' then (Next StNumObjRef, p)
           else (Next StWord, p)))"

function stComment :: "parser \<Rightarrow> step \<times> parser" where
  "stComment p =
     (let idx = IndexAny (pby p) [CHR 0x0D, CHR 0x0A] in
      if idx \<ge> 0 \<and> pby p ! nat idx = CHR 0x0A then (Next StStart, skip p (idx + 1))
      else if idx \<ge> 0 \<and> int (length (pby p)) > idx + 1 then
        (if pby p ! nat (idx + 1) = CHR 0x0A then (Next StStart, skip p (idx + 2))
         else (Next StStart, skip p (idx + 1)))
      else (case callMore p of
              (Some e, p') \<Rightarrow> (Fail e, p')
            | (None, p') \<Rightarrow> stComment p'))"
  by pat_completeness auto
termination
  by (relation "measure unread")
     (auto simp: callMore_def unread_def split: option.splits if_splits)

declare stComment.simps [simp del]

definition stString :: "parser \<Rightarrow> step \<times> parser" where
  "stString p =
     (case p_extend p 1 of
        (Some e, p) \<Rightarrow> (Fail e, p)
      | (None, p) \<Rightarrow>
          (let b = pby p ! 0; p = skip p 1 in
           if b = CHR ''('' then
             (Next StString, p\<lparr>pparens := pparens p + 1, paccum := paccum p @ [b]\<rparr>)
           else if b = CHR '')'' then
             (let p = p\<lparr>pparens := pparens p - 1\<rparr> in
              if pparens p = 0 then (Done (OString (paccum p)), p)
              else (Next StString, p\<lparr>paccum := paccum p @ [b]\<rparr>))
           else if b = CHR 0x5C then (Next StStringEsc, p)
           else if b = CHR 0x0D then
             (case p_extend p 1 of
                (Some e, p) \<Rightarrow> (Fail e, p)
              | (None, p) \<Rightarrow>
                  (let p = (if pby p ! 0 = CHR 0x0A then skip p 1 else p)
                   in (Next StString, p\<lparr>paccum := paccum p @ [CHR 0x0A]\<rparr>)))
           else (Next StString, p\<lparr>paccum := paccum p @ [b]\<rparr>)))"

definition isOctal :: "char \<Rightarrow> bool" where
  "isOctal c \<longleftrightarrow> c \<in> set ''01234567''"

text \<open>Byte arithmetic wraps modulo 256, which is what \<^const>\<open>char_of\<close> does.\<close>

definition stStringEsc :: "parser \<Rightarrow> step \<times> parser" where
  "stStringEsc p =
     (case p_extend p 1 of
        (Some e, p) \<Rightarrow> (Fail e, p)
      | (None, p) \<Rightarrow>
          (let b = pby p ! 0; p = skip p 1 in
           if b = CHR ''n'' then (Next StString, p\<lparr>paccum := paccum p @ [CHR 0x0A]\<rparr>)
           else if b = CHR ''r'' then (Next StString, p\<lparr>paccum := paccum p @ [CHR 0x0D]\<rparr>)
           else if b = CHR ''t'' then (Next StString, p\<lparr>paccum := paccum p @ [CHR 0x09]\<rparr>)
           else if b = CHR ''b'' then (Next StString, p\<lparr>paccum := paccum p @ [CHR 0x08]\<rparr>)
           else if b = CHR ''f'' then (Next StString, p\<lparr>paccum := paccum p @ [CHR 0x0C]\<rparr>)
           else if b = CHR 0x0D then
             (case p_extend p 1 of
                (Some e, p) \<Rightarrow> (Fail e, p)
              | (None, p) \<Rightarrow>
                  (Next StString, if pby p ! 0 = CHR 0x0A then skip p 1 else p))
           else if b = CHR 0x0A then (Next StString, p)
           else if isOctal b then
             (case p_extend p 2 of
                (Some e, p) \<Rightarrow> (Fail e, p)
              | (None, p) \<Rightarrow>
                  (let c0 = pby p ! 0; c1 = pby p ! 1 in
                   if isOctal c0 then
                     (if isOctal c1 then
                        (Next StString,
                         skip (p\<lparr>paccum := paccum p @
                           [char_of (digitVal b * 64 + digitVal c0 * 8 + digitVal c1)]\<rparr>) 2)
                      else
                        (Next StString,
                         skip (p\<lparr>paccum := paccum p @
                           [char_of (digitVal b * 8 + digitVal c0)]\<rparr>) 1))
                   else (Next StString, p\<lparr>paccum := paccum p @ [char_of (digitVal b)]\<rparr>)))
           else (Next StString, p\<lparr>paccum := paccum p @ [b]\<rparr>)))"

definition stHex :: "parser \<Rightarrow> step \<times> parser" where
  "stHex p =
     (case p_extend p 2 of
        (Some e, p) \<Rightarrow> (Fail e, p)
      | (None, p) \<Rightarrow>
          if pby p ! 0 = CHR ''>'' then (Done (OHex (paccum p)), skip (p\<lparr>paccum := []\<rparr>) 1)
          else
            (case hexDigit (pby p ! 0) of
               None \<Rightarrow> (Fail (Err ''invalid character in hex string''), p)
             | Some h \<Rightarrow>
                 (case hexDigit (pby p ! 1) of
                    None \<Rightarrow> (Fail (Err ''invalid character in hex string''), p)
                  | Some l \<Rightarrow>
                      (Next StHex, skip (p\<lparr>paccum := paccum p @ [char_of (h * 16 + l)]\<rparr>) 2))))"

definition stName :: "parser \<Rightarrow> step \<times> parser" where
  "stName p =
     (case p_extend p 1 of
        (Some e, p) \<Rightarrow> (Fail e, p)
      | (None, p) \<Rightarrow>
          (let c = pby p ! 0 in
           if c \<in> set ([CHR 0x00, CHR 0x09, CHR 0x0A, CHR 0x0C, CHR 0x0D, CHR 0x20] @ ''()<>[]{}/%'')
             then (Done (OName (paccum p)), p)
           else if c = CHR ''#'' then
             (case p_extend p 3 of
                (Some e, p) \<Rightarrow> (Fail e, p)
              | (None, p) \<Rightarrow>
                  (case hexDigit (pby p ! 1) of
                     None \<Rightarrow> (Fail (Err ''invalid character in hex escape in /Name''), p)
                   | Some h \<Rightarrow>
                       (case hexDigit (pby p ! 2) of
                          None \<Rightarrow> (Fail (Err ''invalid character in hex escape in /Name''), p)
                        | Some l \<Rightarrow>
                            (Next StName,
                             skip (p\<lparr>paccum := paccum p @ [char_of (h * 16 + l)]\<rparr>) 3))))
           else (Next StName, skip (p\<lparr>paccum := paccum p @ [c]\<rparr>) 1)))"

definition stWord :: "parser \<Rightarrow> step \<times> parser" where
  "stWord p =
     (case p_extend p 6 of
        (Some e, p) \<Rightarrow> (Fail e, p)
      | (None, p) \<Rightarrow>
          if HasPrefix (pby p) ''null'' \<and> \<not> isRegularChar (pby p ! 4) then (Done ONull, skip p 4)
          else if HasPrefix (pby p) ''true'' \<and> \<not> isRegularChar (pby p ! 4)
            then (Done (OBool True), skip p 4)
          else if HasPrefix (pby p) ''false'' \<and> \<not> isRegularChar (pby p ! 5)
            then (Done (OBool False), skip p 5)
          else (Fail (Err ''unexpected bare word''), p))"

text \<open>
  The regular expression refObjRE: digits, white space, digits, white space, \<open>R\<close> or
  \<open>obj\<close>, one non-regular character.  The character classes are disjoint, so each run is
  the longest one.  The result is the three groups and the length of the whole match.
\<close>

definition isSpace :: "char \<Rightarrow> bool" where
  "isSpace c \<longleftrightarrow> c \<in> set whitespace"

definition refObjRE :: "string \<Rightarrow> (string \<times> string \<times> string \<times> int) option" where
  "refObjRE s =
     (let d1 = takeWhile isDigit s; r1 = dropWhile isDigit s;
          w1 = takeWhile isSpace r1; r2 = dropWhile isSpace r1;
          d2 = takeWhile isDigit r2; r3 = dropWhile isDigit r2;
          w2 = takeWhile isSpace r3; r4 = dropWhile isSpace r3;
          n = int (length d1 + length w1 + length d2 + length w2)
      in if d1 = [] \<or> w1 = [] \<or> d2 = [] \<or> w2 = [] then None
         else if HasPrefix r4 ''R'' \<and> length r4 > 1 \<and> \<not> isRegularChar (r4 ! 1)
           then Some (d1, d2, ''R'', n + 2)
         else if HasPrefix r4 ''obj'' \<and> length r4 > 3 \<and> \<not> isRegularChar (r4 ! 3)
           then Some (d1, d2, ''obj'', n + 4)
         else None)"

text \<open>The regular expression refObjPrefixRE: the whole buffer is a proper start of the above.\<close>

definition refObjPrefixRE :: "string \<Rightarrow> bool" where
  "refObjPrefixRE s =
     (let d1 = takeWhile isDigit s; r1 = dropWhile isDigit s;
          w1 = takeWhile isSpace r1; r2 = dropWhile isSpace r1;
          d2 = takeWhile isDigit r2; r3 = dropWhile isDigit r2;
          w2 = takeWhile isSpace r3; r4 = dropWhile isSpace r3
      in d1 \<noteq> [] \<and>
         (r1 = [] \<or> (w1 \<noteq> [] \<and>
           (r2 = [] \<or> (d2 \<noteq> [] \<and>
             (r3 = [] \<or> (w2 \<noteq> [] \<and> r4 \<in> set [[], ''R'', ''o'', ''ob'', ''obj''])))))))"

function stNumber :: "stdlib \<Rightarrow> parser \<Rightarrow> step \<times> parser" where
  "stNumber L p =
     (let idx = IndexAny (pby p) nonRegularChars in
      if idx < 0 then
        (case callMore p of
           (Some e, p') \<Rightarrow> (Fail e, p')
         | (None, p') \<Rightarrow> stNumber L p')
      else
        (let s = take (nat idx) (pby p) in
         case Atoi s of
           (num, None) \<Rightarrow> (Done (OInt num), skip p idx)
         | (num, Some e) \<Rightarrow>
             (case ParseFloat L s of
                Some f \<Rightarrow> (Done (OReal f), skip p idx)
              | None \<Rightarrow> (Fail (Err ''invalid numeric constant''), p))))"
  by pat_completeness auto
termination
  by (relation "measure (\<lambda>(L, p). unread p)")
     (auto simp: callMore_def unread_def split: option.splits if_splits)

declare stNumber.simps [simp del]

definition stRef :: "parser \<Rightarrow> string \<times> string \<times> string \<times> int \<Rightarrow> step \<times> parser" where
  "stRef p m =
     (case m of (m1, m2, m3, n) \<Rightarrow>
        (Done (ORef \<lparr>Number = fst (Atoi m1), Generation = fst (Atoi m2)\<rparr>), skip p (n - 1)))"

text \<open>
  readObject is recursive through stNumberedObj, stArray and stDict.  These take the
  reader for the nested objects as an argument; it returns the remainder of the buffer,
  the new offset, the object and the state of the \<open>more\<close> closure, which the nested
  parser shares.  \<open>None\<close> is reserved for a computation that has not finished.
\<close>

type_synonym readResult = "(error + (string \<times> int \<times> Object \<times> string option)) option"
type_synonym reader = "int \<Rightarrow> string \<Rightarrow> string option \<Rightarrow> readResult"

definition stNumberedObj ::
  "reader \<Rightarrow> parser \<Rightarrow> string \<times> string \<times> string \<times> int \<Rightarrow> (step \<times> parser) option" where
  "stNumberedObj rd p m =
     (case m of (m1, m2, m3, n) \<Rightarrow>
        (let p = skip p (n - 1) in
         case rd (poffset p) (pby p) (pmore p) of
           None \<Rightarrow> None
         | Some (Inl e) \<Rightarrow> Some (Fail e, p\<lparr>pby := [], poffset := 0\<rparr>)
         | Some (Inr (rem, newoff, obj, m)) \<Rightarrow>
             (let p = p\<lparr>pby := rem, poffset := newoff, pmore := m\<rparr> in
              case skipWhitespace p of
                (Some e, p) \<Rightarrow> Some (Fail e, p)
              | (None, p) \<Rightarrow>
                  (case p_extend p 7 of
                     (Some e, p) \<Rightarrow> Some (Fail e, p)
                   | (None, p) \<Rightarrow>
                       if HasPrefix (pby p) ''endobj'' \<and> \<not> isRegularChar (pby p ! 6)
                         then Some (Done obj, skip p 6)
                       else Some (Fail (Err ''expected endobj after indirect object''), p)))))"

function stNumObjRef :: "reader \<Rightarrow> parser \<Rightarrow> (step \<times> parser) option" where
  "stNumObjRef rd p =
     (case refObjRE (pby p) of
        Some m \<Rightarrow>
          (if fst (snd (snd m)) = ''R'' then Some (stRef p m) else stNumberedObj rd p m)
      | None \<Rightarrow>
          if \<not> refObjPrefixRE (pby p) then Some (Next StNumber, p)
          else (case callMore p of
                  (Some e, p') \<Rightarrow> Some (Fail e, p')
                | (None, p') \<Rightarrow> stNumObjRef rd p'))"
  by pat_completeness auto
termination
  by (relation "measure (\<lambda>(rd, p). unread p)")
     (auto simp: callMore_def unread_def split: option.splits if_splits)

declare stNumObjRef.simps [simp del]

text \<open>The loops of stArray and stDict; the first argument bounds the number of rounds.\<close>

primrec stArray :: "nat \<Rightarrow> reader \<Rightarrow> parser \<Rightarrow> Object list \<Rightarrow> (step \<times> parser) option" where
  "stArray 0 rd p a = None"
| "stArray (Suc k) rd p a =
     (case skipWhitespace p of
        (Some e, p) \<Rightarrow> Some (Fail e, p)
      | (None, p) \<Rightarrow>
          if pby p ! 0 = CHR '']'' then Some (Done (OArray a), skip p 1)
          else
            (case rd (poffset p) (pby p) (pmore p) of
               None \<Rightarrow> None
             | Some (Inl e) \<Rightarrow>
                 Some (Fail (wrap ''reading array value at offset %d: %s'' e), p\<lparr>pby := []\<rparr>)
             | Some (Inr (rem, newoff, obj, m)) \<Rightarrow>
                 stArray k rd (p\<lparr>pby := rem, poffset := newoff, pmore := m\<rparr>) (a @ [obj])))"

primrec stDictLoop ::
  "nat \<Rightarrow> reader \<Rightarrow> parser \<Rightarrow> Dict \<Rightarrow> ((error + Dict) \<times> parser) option" where
  "stDictLoop 0 rd p d = None"
| "stDictLoop (Suc k) rd p d =
     (case skipWhitespace p of
        (Some e, p) \<Rightarrow> Some (Inl e, p)
      | (None, p) \<Rightarrow>
          (case p_extend p 2 of
             (Some e, p) \<Rightarrow> Some (Inl e, p)
           | (None, p) \<Rightarrow>
               if pby p ! 0 = CHR ''>'' \<and> pby p ! 1 = CHR ''>'' then Some (Inr d, skip p 2)
               else
                 (case rd (poffset p) (pby p) (pmore p) of
                    None \<Rightarrow> None
                  | Some (Inl e) \<Rightarrow>
                      Some (Inl (wrap ''reading /Name in dict at offset %d: %s'' e), p\<lparr>pby := []\<rparr>)
                  | Some (Inr (rem, newoff, obj, m)) \<Rightarrow>
                      (case obj of
                         OName key \<Rightarrow>
                           (let p = p\<lparr>pby := rem, poffset := newoff, pmore := m\<rparr> in
                            case rd (poffset p) (pby p) (pmore p) of
                              None \<Rightarrow> None
                            | Some (Inl e) \<Rightarrow>
                                Some (Inl (wrap ''reading value for /%s in dict at offset %d: %s'' e),
                                      p\<lparr>pby := []\<rparr>)
                            | Some (Inr (rem, newoff, obj, m)) \<Rightarrow>
                                stDictLoop k rd (p\<lparr>pby := rem, poffset := newoff, pmore := m\<rparr>)
                                  (AList.update key obj d))
                       | _ \<Rightarrow>
                           Some (Inl (Err ''expected /Name in dict at offset %d''),
                                 p\<lparr>pby := rem, pmore := m\<rparr>)))))"

text \<open>
  After the closing \<open>>>\<close>: a dictionary, unless the keyword \<open>stream\<close> follows.  An error
  of skipWhitespace or p_extend at this point is not reported; the Dict is returned.
\<close>

definition stDictTail :: "Dict \<Rightarrow> parser \<Rightarrow> step \<times> parser" where
  "stDictTail d p =
     (case skipWhitespace p of
        (Some e, p) \<Rightarrow> (Done (ODict d), p)
      | (None, p) \<Rightarrow>
          (case p_extend p 8 of
             (Some e, p) \<Rightarrow> (Done (ODict d), p)
           | (None, p) \<Rightarrow>
               if \<not> HasPrefix (pby p) ''stream'' then (Done (ODict d), p)
               else if (pby p ! 6 \<noteq> CHR 0x0D \<and> pby p ! 6 \<noteq> CHR 0x0A)
                       \<or> (pby p ! 6 = CHR 0x0D \<and> pby p ! 7 \<noteq> CHR 0x0A)
                 then (Done (ODict d), p)
               else
                 (let p = (if pby p ! 6 = CHR 0x0D then skip p 8 else skip p 7) in
                  case dictGet d ''Length'' of
                    OInt sz \<Rightarrow>
                      (case p_extend p (sz + 12) of
                         (Some e, p) \<Rightarrow> (Fail e, p)
                       | (None, p) \<Rightarrow>
                           if sz < 0 then (Fail (Panic ''slice bounds out of range''), p)
                           else
                             (let dat = take (nat sz) (pby p);
                                  p = skip p sz;
                                  p = (if pby p ! 0 = CHR 0x0D \<and> pby p ! 1 = CHR 0x0A then skip p 2
                                       else if pby p ! 0 = CHR 0x0D \<or> pby p ! 0 = CHR 0x0A
                                         then skip p 1
                                       else p)
                              in if \<not> HasPrefix (pby p) ''endstream'' \<or> isRegularChar (pby p ! 9)
                                   then (Fail (Err ''expected endstream at end of stream''), p)
                                 else (Done (OStream d dat), skip p 9)))
                  | _ \<Rightarrow> (Fail (Err ''invalid Length for stream''), p))))"

definition stDict :: "nat \<Rightarrow> reader \<Rightarrow> parser \<Rightarrow> (step \<times> parser) option" where
  "stDict k rd p =
     (case stDictLoop k rd p [] of
        None \<Rightarrow> None
      | Some (Inl e, p) \<Rightarrow> Some (Fail e, p)
      | Some (Inr d, p) \<Rightarrow> Some (stDictTail d p))"

section \<open>readObject\<close>

text \<open>
  The loop \<open>for state != nil\<close> of readObject, as a function of the current state.  The
  first argument bounds the number of state transitions and the nesting depth; \<open>None\<close>
  means that the bound was reached.
\<close>

definition readObjectWith ::
  "(statefunc \<Rightarrow> parser \<Rightarrow> ((error + Object) \<times> parser) option) \<Rightarrow> reader" where
  "readObjectWith loop off b m =
     (case loop StStart \<lparr>pby = b, pmore = m, paccum = [], pparens = 0, poffset = off\<rparr> of
        None \<Rightarrow> None
      | Some (Inl e, p) \<Rightarrow> Some (Inl e)
      | Some (Inr obj, p) \<Rightarrow> Some (Inr (pby p, poffset p, obj, pmore p)))"

definition dispatch ::
  "stdlib \<Rightarrow> nat \<Rightarrow> reader \<Rightarrow> statefunc \<Rightarrow> parser \<Rightarrow> (step \<times> parser) option" where
  "dispatch L k rd st p =
     (case st of
        StStart \<Rightarrow> Some (stStart p)
      | StComment \<Rightarrow> Some (stComment p)
      | StString \<Rightarrow> Some (stString p)
      | StStringEsc \<Rightarrow> Some (stStringEsc p)
      | StHex \<Rightarrow> Some (stHex p)
      | StName \<Rightarrow> Some (stName p)
      | StWord \<Rightarrow> Some (stWord p)
      | StNumObjRef \<Rightarrow> stNumObjRef rd p
      | StNumber \<Rightarrow> Some (stNumber L p)
      | StArray \<Rightarrow> stArray k rd p []
      | StDict \<Rightarrow> stDict k rd p)"

primrec run ::
  "nat \<Rightarrow> stdlib \<Rightarrow> statefunc \<Rightarrow> parser \<Rightarrow> ((error + Object) \<times> parser) option" where
  "run 0 L st p = None"
| "run (Suc n) L st p =
     (case dispatch L n (readObjectWith (run n L)) st p of
        None \<Rightarrow> None
      | Some (Next st', p') \<Rightarrow> run n L st' p'
      | Some (Done obj, p') \<Rightarrow> Some (Inr obj, p')
      | Some (Fail e, p') \<Rightarrow> Some (Inl e, p'))"

definition readObject :: "nat \<Rightarrow> stdlib \<Rightarrow> reader" where
  "readObject n L = readObjectWith (run n L)"

text \<open>readObjectFrom parses from a byte array; there is no \<open>more\<close> function.\<close>

definition readObjectFrom :: "nat \<Rightarrow> stdlib \<Rightarrow> string \<Rightarrow> (error + (Object \<times> int)) option" where
  "readObjectFrom n L b =
     (case readObject n L 0 b None of
        None \<Rightarrow> None
      | Some (Inl e) \<Rightarrow> Some (Inl e)
      | Some (Inr (rem, newoff, obj, m)) \<Rightarrow> Some (Inr (obj, newoff)))"

section \<open>Serialising names\<close>

text \<open>
  \<open>fmt.Fprintf(&sb, "#%2X", b)\<close>: the byte in upper-case hexadecimal, without leading
  zeros, padded with blanks on the left to a width of two.
\<close>

definition hexChar :: "nat \<Rightarrow> char" where
  "hexChar n = ''0123456789ABCDEF'' ! n"

definition fmt2X :: "char \<Rightarrow> string" where
  "fmt2X b =
     (let n = (of_char b :: nat)
      in if n < 16 then [CHR '' '', hexChar n] else [hexChar (n div 16), hexChar (n mod 16)])"

definition encodeName :: "string \<Rightarrow> string" where
  "encodeName n =
     CHR ''/'' # concat (map (\<lambda>b. if isRegularChar b then [b] else CHR ''#'' # fmt2X b) n)"

section \<open>Streams\<close>

text \<open>
  unpredictPNG works in place on the byte slice.  \<open>copy\<close> moves bytes as if through a
  temporary.  Go's \<open>%\<close> and \<open>/\<close> truncate; the dividend is a length, so it is not
  negative.
\<close>

definition copyAt :: "string \<Rightarrow> nat \<Rightarrow> string \<Rightarrow> string" where
  "copyAt stream out src = take out stream @ src @ drop (out + length src) stream"

definition addPrev :: "nat \<Rightarrow> nat \<Rightarrow> nat \<Rightarrow> string \<Rightarrow> nat \<Rightarrow> string" where
  "addPrev inp out rowsize stream b =
     stream[out + b := char_of ((of_char (stream ! (inp + b + 1)) :: nat)
                                + of_char (stream ! (out + b - rowsize)))]"

function unpredictRows :: "nat \<Rightarrow> nat \<Rightarrow> nat \<Rightarrow> nat \<Rightarrow> string \<Rightarrow> error + string" where
  "unpredictRows rowsize rows row out stream =
     (if row < rows then
        (let inp = row * (rowsize + 1) in
         if stream ! inp = CHR 0x00 then
           unpredictRows rowsize rows (row + 1) (out + rowsize)
             (copyAt stream out (take rowsize (drop (inp + 1) stream)))
         else if stream ! inp = CHR 0x02 then
           (if row = 0 then
              unpredictRows rowsize rows (row + 1) (out + rowsize)
                (copyAt stream out (take rowsize (drop (inp + 1) stream)))
            else
              unpredictRows rowsize rows (row + 1) (out + rowsize)
                (foldl (addPrev inp out rowsize) stream [0..<rowsize]))
         else Inl (Err ''unexpected PNG filter type %d''))
      else Inr (take out stream))"
  by pat_completeness auto
termination
  by (relation "measure (\<lambda>(rowsize, rows, row, out, stream). rows - row)") auto

declare unpredictRows.simps [simp del]

definition unpredictPNG :: "string \<Rightarrow> int \<Rightarrow> error + string" where
  "unpredictPNG stream rowsize =
     (if rowsize + 1 = 0 then Inl (Panic ''integer divide by zero'')
      else if rowsize + 1 < 0 then
        (if int (length stream) mod (- (rowsize + 1)) \<noteq> 0
           then Inl (Err ''stream length is not a multiple of row length'')
         else Inr [])
      else if length stream mod (nat rowsize + 1) \<noteq> 0
        then Inl (Err ''stream length is not a multiple of row length'')
      else unpredictRows (nat rowsize) (length stream div (nat rowsize + 1)) 0 0 stream)"

text \<open>
  decompressFlateStream.  The stream is updated as soon as the data is inflated; when
  unpredictPNG fails, its nil result has been assigned to \<open>s.Data\<close>.
\<close>

definition decompressFlateStream ::
  "stdlib \<Rightarrow> Stream \<Rightarrow> Dict option \<Rightarrow> int \<Rightarrow> error option \<times> Stream" where
  "decompressFlateStream L s parms rowsize =
     (case zlibInflate L (Data s) of
        None \<Rightarrow> (Some (Err ''running FlateDecode on stream: %s''), s)
      | Some buf \<Rightarrow>
          (let s = s\<lparr>Data := buf\<rparr> in
           case parms of
             None \<Rightarrow> (None, s)
           | Some parms \<Rightarrow>
               (case dictGet parms ''Predictor'' of
                  ONull \<Rightarrow> (None, s)
                | OInt pred \<Rightarrow>
                    if pred = 1 then (None, s)
                    else if pred \<in> set [10, 11, 12, 13, 14, 15] then
                      (if rowsize = 0 then
                         (Some (Err ''rowsize is needed for stream decoding and was not provided''), s)
                       else
                         (case unpredictPNG (Data s) rowsize of
                            Inl e \<Rightarrow> (Some e, s\<lparr>Data := []\<rparr>)
                          | Inr dat \<Rightarrow> (None, s\<lparr>Data := dat\<rparr>)))
                    else (Some (Err ''FlateDecode predictor %d is not supported''), s)
                | _ \<Rightarrow> (Some (Err ''FlateDecode predictor is not an integer''), s))))"

text \<open>The loop over the filters; \<open>parms\<close> is nil or has one Dict for each filter.\<close>

fun applyFilters ::
  "stdlib \<Rightarrow> string list \<Rightarrow> Dict list option \<Rightarrow> int \<Rightarrow> Stream \<Rightarrow> error option \<times> Stream" where
  "applyFilters L [] parms rowsize s = (None, s\<lparr>Dict := AList.delete ''Filter'' (Dict s)\<rparr>)"
| "applyFilters L (flt # filters) parms rowsize s =
     (if flt = ''FlateDecode'' then
        (case decompressFlateStream L s (map_option hd parms) rowsize of
           (Some e, s) \<Rightarrow> (Some e, s)
         | (None, s) \<Rightarrow> applyFilters L filters (map_option tl parms) rowsize s)
      else (Some (Err ''stream /Filter encoding /%s is not supported''), s))"

fun namesOf :: "Object list \<Rightarrow> string list option" where
  "namesOf [] = Some []"
| "namesOf (OName n # os) = map_option ((#) n) (namesOf os)"
| "namesOf (_ # os) = None"

fun dictsOf :: "Object list \<Rightarrow> Dict list option" where
  "dictsOf [] = Some []"
| "dictsOf (ODict d # os) = map_option ((#) d) (dictsOf os)"
| "dictsOf (_ # os) = None"

text \<open>
  Decompress has a pointer receiver: it returns an error or nil and updates the stream.
  The type switch on \<open>s.Dict["Filter"]\<close> takes the nil case for a missing key and for a
  key that is present with the null object.
\<close>

definition Decompress :: "stdlib \<Rightarrow> Stream \<Rightarrow> int \<Rightarrow> error option \<times> Stream" where
  "Decompress L s rowsize =
     (case dictGet (Dict s) ''Filter'' of
        ONull \<Rightarrow> (None, s)
      | OName flist \<Rightarrow>
          (case dictGet (Dict s) ''DecodeParms'' of
             ONull \<Rightarrow> applyFilters L [flist] None rowsize s
           | ODict p \<Rightarrow> applyFilters L [flist] (Some [p]) rowsize s
           | _ \<Rightarrow> (Some (Err ''stream /DecodeParms is not a dictionary''), s))
      | OArray flist \<Rightarrow>
          (case namesOf flist of
             None \<Rightarrow> (Some (Err ''stream /Filter entry is not a /Name''), s)
           | Some filters \<Rightarrow>
               (case dictGet (Dict s) ''DecodeParms'' of
                  ONull \<Rightarrow> applyFilters L filters None rowsize s
                | OArray pa \<Rightarrow>
                    if length pa \<noteq> length flist
                      then (Some (Err ''stream /DecodeParms is array with wrong length''), s)
                    else
                      (case dictsOf pa of
                         None \<Rightarrow> (Some (Err ''stream /DecodeParams entry is not a dict''), s)
                       | Some parms \<Rightarrow> applyFilters L filters (Some parms) rowsize s)
                | _ \<Rightarrow> (Some (Err ''stream /DecodeParams is not an array''), s)))
      | _ \<Rightarrow> (Some (Err ''stream /Filter is not a /Name or array''), s))"

section \<open>The document and its cross-reference table\<close>

text \<open>
  A slot of \<open>p.xref\<close> holds an xrefFree, an xrefDirect, an xrefStream, or anything else:
  nil for a slot that no section has filled, or the object itself for an object added by
  CreateObject.  The \<open>cache\<close> fields are Objects; nil is \<^const>\<open>ONull\<close>.
\<close>

datatype xrefSlot =
    XFree int int
  | XDirect int int Object
  | XStream int int Object
  | XObject Object

text \<open>
  The struct PDF.  \<open>fh\<close> is the content of the file behind the Reader; \<open>updates\<close> is a
  Go map from Reference to Object.
\<close>

record PDF =
  fh :: string
  start :: int
  xref :: "xrefSlot list"
  Info :: Dict
  Catalog :: Dict
  updates :: "(Reference \<times> Object) list"

text \<open>
  readObjectAt: the \<open>more\<close> closure reads on from \<open>addr\<close>.  A position outside the file
  makes the first read fail.
\<close>

definition readObjectAt :: "nat \<Rightarrow> stdlib \<Rightarrow> PDF \<Rightarrow> int \<Rightarrow> (error + Object) option" where
  "readObjectAt n L p addr =
     (case readObject n L addr [] (Some (if addr < 0 then [] else drop (nat addr) (fh p))) of
        None \<Rightarrow> None
      | Some (Inl e) \<Rightarrow> Some (Inl (wrap ''reading object at offset %d: %s'' e))
      | Some (Inr (rem, newoff, obj, m)) \<Rightarrow> Some (Inr obj))"

text \<open>The loop of extractObjectFromStream that reads the integers of the stream header.\<close>

primrec headerInts ::
  "nat \<Rightarrow> nat \<Rightarrow> stdlib \<Rightarrow> string \<Rightarrow> int \<Rightarrow> (error + int) option" where
  "headerInts 0 n L dat off = Some (Inr off)"
| "headerInts (Suc k) n L dat off =
     (case readObjectFrom n L (drop (nat off) dat) of
        None \<Rightarrow> None
      | Some (Inl e) \<Rightarrow> Some (Inl (wrap ''reading integer in stream header at offset %d: %s'' e))
      | Some (Inr (obj, delta)) \<Rightarrow>
          (case obj of
             OInt i \<Rightarrow> headerInts k n L dat (off + delta)
           | _ \<Rightarrow> Some (Inl (Err ''expected integer in stream header at offset %d''))))"

definition extractObjectFromStream ::
  "nat \<Rightarrow> stdlib \<Rightarrow> Stream \<Rightarrow> int \<Rightarrow> (error + Object) option" where
  "extractObjectFromStream n L s idx =
     (if dictGet (Dict s) ''Type'' \<noteq> OName ''ObjStm''
        then Some (Inl (Err ''stream is not an object stream''))
      else
        (case dictGet (Dict s) ''N'' of
           OInt cnt \<Rightarrow>
             if idx < 0 \<or> idx \<ge> cnt then Some (Inl (Err ''index out of range for object stream''))
             else
               (case dictGet (Dict s) ''First'' of
                  OInt first \<Rightarrow>
                    (case headerInts (nat (idx * 2 + 1)) n L (Data s) 0 of
                       None \<Rightarrow> None
                     | Some (Inl e) \<Rightarrow> Some (Inl e)
                     | Some (Inr off) \<Rightarrow>
                         (case readObjectFrom n L (drop (nat off) (Data s)) of
                            None \<Rightarrow> None
                          | Some (Inl e) \<Rightarrow>
                              Some (Inl (wrap ''reading integer in stream header at offset %d: %s'' e))
                          | Some (Inr (obj, delta)) \<Rightarrow>
                              (case obj of
                                 OInt rel \<Rightarrow>
                                   (let off = first + rel in
                                    if off < 0 \<or> off > int (length (Data s))
                                      then Some (Inl (Panic ''slice bounds out of range''))
                                    else
                                      (case readObjectFrom n L (drop (nat off) (Data s)) of
                                         None \<Rightarrow> None
                                       | Some (Inl e) \<Rightarrow>
                                           Some (Inl (wrap ''reading object in stream at offset %d: %s'' e))
                                       | Some (Inr (obj, delta)) \<Rightarrow> Some (Inr obj)))
                               | _ \<Rightarrow>
                                   Some (Inl (Err ''expected integer in stream header at offset %d'')))))
                | _ \<Rightarrow> Some (Inl (Err ''object stream missing First value'')))
         | _ \<Rightarrow> Some (Inl (Err ''index out of range for object stream''))))"

text \<open>
  Get.  The type switch \<open>switch xe := p.xref[r.Number].(type)\<close> binds \<open>xe\<close> to a copy of
  the struct in the slot, so the assignments \<open>xe.cache = obj\<close> change that copy and the
  table stays as it is.  \<open>str\<close> is a copy of the Stream as well; what Decompress does to
  its Dict (a Go map, shared by the copies) reaches the table only when the slot of the
  containing stream holds the Stream itself, which is what \<open>shareDict\<close> writes back.
  (The same Dict may also be held by \<open>p.updates\<close> and by the caller; that sharing is not
  modelled.)  The result of Decompress is dropped.

  Get calls itself for the containing stream, possibly for ever; the first argument
  bounds the depth of the calls and the work of the parser, and \<open>None\<close> means that the
  bound was reached.
\<close>

definition shareDict :: "PDF \<Rightarrow> int \<Rightarrow> Stream \<Rightarrow> PDF" where
  "shareDict p n str =
     (case xref p ! nat n of
        XObject (OStream d dat) \<Rightarrow> p\<lparr>xref := (xref p)[nat n := XObject (OStream (Dict str) dat)]\<rparr>
      | _ \<Rightarrow> p)"

primrec Get :: "nat \<Rightarrow> stdlib \<Rightarrow> PDF \<Rightarrow> Reference \<Rightarrow> ((error + Object) \<times> PDF) option" where
  "Get 0 L p r = None"
| "Get (Suc n) L p r =
     (if Number r < 1 \<or> Number r \<ge> int (length (xref p)) then
        Some (Inl (Err ''object number %d is out of range for document (max %d)''), p)
      else
        (case xref p ! nat (Number r) of
           XFree nxt gen \<Rightarrow> Some (Inl (Err ''object number %d is on the free list''), p)
         | XDirect off gen cache \<Rightarrow>
             if gen \<noteq> Generation r then
               Some (Inl (Err ''object number %d has generation %d but %d was requested''), p)
             else if cache \<noteq> ONull then Some (Inr cache, p)
             else
               (case readObjectAt n L p off of
                  None \<Rightarrow> None
                | Some (Inl e) \<Rightarrow> Some (Inl (wrap ''reading object number %d: %s'' e), p)
                | Some (Inr obj) \<Rightarrow> Some (Inr obj, p))
         | XStream stream index cache \<Rightarrow>
             if Generation r \<noteq> 0 then
               Some (Inl (Err ''object number %d is in an object stream but has a nonzero generation number''), p)
             else if cache \<noteq> ONull then Some (Inr cache, p)
             else
               (case Get n L p \<lparr>Number = stream, Generation = 0\<rparr> of
                  None \<Rightarrow> None
                | Some (Inl e, p) \<Rightarrow>
                    Some (Inl (wrap ''reading stream %d containing object %d: %s'' e), p)
                | Some (Inr obj, p) \<Rightarrow>
                    (case obj of
                       OStream d dat \<Rightarrow>
                         (case Decompress L \<lparr>Dict = d, Data = dat\<rparr> 0 of
                            (Some (Panic m), str) \<Rightarrow> Some (Inl (Panic m), shareDict p stream str)
                          | (_, str) \<Rightarrow>
                              (case extractObjectFromStream n L str index of
                                 None \<Rightarrow> None
                               | Some (Inl e) \<Rightarrow>
                                   Some (Inl (wrap ''extracting object %d from stream %d at index %d: %s'' e),
                                         shareDict p stream str)
                               | Some (Inr obj) \<Rightarrow> Some (Inr obj, shareDict p stream str)))
                     | _ \<Rightarrow>
                         Some (Inl (Err ''reading stream %d containing object %d: object %d is not a stream''), p)))
         | XObject obj \<Rightarrow> Some (Inr obj, p)))"

definition GetArray ::
  "nat \<Rightarrow> stdlib \<Rightarrow> PDF \<Rightarrow> Reference \<Rightarrow> ((error + Object list) \<times> PDF) option" where
  "GetArray n L p r =
     (case Get n L p r of
        None \<Rightarrow> None
      | Some (Inl e, p) \<Rightarrow> Some (Inl e, p)
      | Some (Inr (OArray a), p) \<Rightarrow> Some (Inr a, p)
      | Some (Inr _, p) \<Rightarrow> Some (Inl (Err ''specified object is not an Array''), p))"

definition GetDict ::
  "nat \<Rightarrow> stdlib \<Rightarrow> PDF \<Rightarrow> Reference \<Rightarrow> ((error + Dict) \<times> PDF) option" where
  "GetDict n L p r =
     (case Get n L p r of
        None \<Rightarrow> None
      | Some (Inl e, p) \<Rightarrow> Some (Inl e, p)
      | Some (Inr (ODict d), p) \<Rightarrow> Some (Inr d, p)
      | Some (Inr _, p) \<Rightarrow> Some (Inl (Err ''specified object is not a Dict''), p))"

text \<open>UpdateObject and CreateObject.\<close>

definition UpdateObject :: "PDF \<Rightarrow> Reference \<Rightarrow> Object \<Rightarrow> PDF" where
  "UpdateObject p ref obj = p\<lparr>updates := AList.update ref obj (updates p)\<rparr>"

definition CreateObject :: "PDF \<Rightarrow> Object \<Rightarrow> Reference \<times> PDF" where
  "CreateObject p obj =
     (let ref = \<lparr>Number = int (length (xref p)), Generation = 0\<rparr>
      in (ref, p\<lparr>xref := xref p @ [XObject obj], updates := AList.update ref obj (updates p)\<rparr>))"

section \<open>Reading the cross-reference sections\<close>

text \<open>
  \<open>p.fh.ReadAt(buf, off)\<close> for a buffer of \<open>len\<close> bytes.  Every caller below treats a
  short read as an error, so only complete reads are results.
\<close>

definition ReadAt :: "PDF \<Rightarrow> nat \<Rightarrow> int \<Rightarrow> string option" where
  "ReadAt p len off =
     (if off < 0 \<or> int (length (fh p)) < off + int len then None
      else Some (take len (drop (nat off) (fh p))))"

text \<open>
  The regular expression xrefAddrRE, matched against the last 64 bytes: an end of line,
  \<open>startxref\<close>, an end of line, digits, an end of line, \<open>%%EOF\<close>, an optional end of line,
  the end of the text.  What follows an end of line never starts with a line feed, so
  \<open>\r\n\<close> is taken whole.
\<close>

fun stripEOL :: "string \<Rightarrow> string option" where
  "stripEOL (c # d # t) =
     (if c = CHR 0x0D \<and> d = CHR 0x0A then Some t
      else if c = CHR 0x0D \<or> c = CHR 0x0A then Some (d # t)
      else None)"
| "stripEOL [c] = (if c = CHR 0x0D \<or> c = CHR 0x0A then Some [] else None)"
| "stripEOL [] = None"

definition xrefAddrAt :: "string \<Rightarrow> string option" where
  "xrefAddrAt s =
     (case stripEOL s of
        None \<Rightarrow> None
      | Some t \<Rightarrow>
          if \<not> HasPrefix t ''startxref'' then None
          else
            (case stripEOL (drop 9 t) of
               None \<Rightarrow> None
             | Some u \<Rightarrow>
                 (let d = takeWhile isDigit u in
                  if d = [] then None
                  else
                    (case stripEOL (dropWhile isDigit u) of
                       None \<Rightarrow> None
                     | Some x \<Rightarrow>
                         if HasPrefix x ''%%EOF''
                            \<and> drop 5 x \<in> set [[], [CHR 0x0D], [CHR 0x0A], [CHR 0x0D, CHR 0x0A]]
                           then Some d
                         else None))))"

fun xrefAddrRE :: "string \<Rightarrow> string option" where
  "xrefAddrRE [] = xrefAddrAt []"
| "xrefAddrRE (c # cs) =
     (case xrefAddrAt (c # cs) of Some d \<Rightarrow> Some d | None \<Rightarrow> xrefAddrRE cs)"

definition readStartXRef :: "PDF \<Rightarrow> error option \<times> PDF" where
  "readStartXRef p =
     (case ReadAt p 64 (int (length (fh p)) - 64) of
        None \<Rightarrow> (Some EOF, p)
      | Some buf \<Rightarrow>
          (case xrefAddrRE buf of
             None \<Rightarrow> (Some (Err ''no startxref found at end of file''), p)
           | Some d \<Rightarrow> (None, p\<lparr>start := fst (Atoi d)\<rparr>)))"

text \<open>
  The table is grown with nil slots; the slots it has are copied.
\<close>

definition growTo :: "xrefSlot list \<Rightarrow> int \<Rightarrow> xrefSlot list" where
  "growTo xs m =
     (if int (length xs) < m then xs @ replicate (nat m - length xs) (XObject ONull) else xs)"

text \<open>
  readXRefTableSection.  The loop over the entries of a section: \<open>j\<close> is \<open>start + i\<close>.
  An entry whose slot is not nil is passed over.
\<close>

primrec tableEntries :: "nat \<Rightarrow> PDF \<Rightarrow> int \<Rightarrow> int \<Rightarrow> error option \<times> int \<times> PDF" where
  "tableEntries 0 p j addr = (None, addr, p)"
| "tableEntries (Suc k) p j addr =
     (if j < 0 \<or> j \<ge> int (length (xref p)) then (Some (Panic ''index out of range''), addr, p)
      else if xref p ! nat j \<noteq> XObject ONull then tableEntries k p (j + 1) (addr + 20)
      else
        (case ReadAt p 20 addr of
           None \<Rightarrow>
             (Some (wrap ''reading cross-reference table entry at offset %d: %s'' EOF), addr, p)
         | Some line \<Rightarrow>
             if line ! 17 = CHR ''n'' \<or> line ! 17 = CHR ''f'' then
               (case Atoi (take 10 line) of
                  (a, Some e) \<Rightarrow>
                    (Some (Err ''invalid cross-reference table entry at offset %d''), addr, p)
                | (a, None) \<Rightarrow>
                    (case Atoi (take 5 (drop 11 line)) of
                       (g, Some e) \<Rightarrow>
                         (Some (Err ''invalid cross-reference table entry at offset %d''), addr, p)
                     | (g, None) \<Rightarrow>
                         tableEntries k
                           (p\<lparr>xref := (xref p)[nat j :=
                              (if line ! 17 = CHR ''n'' then XDirect a g ONull else XFree a g)]\<rparr>)
                           (j + 1) (addr + 20)))
             else (Some (Err ''invalid cross-reference table entry at offset %d''), addr, p)))"

definition readXRefTableSection ::
  "stdlib \<Rightarrow> PDF \<Rightarrow> int \<Rightarrow> string \<Rightarrow> (error + int) \<times> PDF" where
  "readXRefTableSection L p addr line =
     (let idx = IndexAny line [CHR 0x0D, CHR 0x0A] in
      if idx < 0 then
        (Inl (Err ''invalid cross-reference table section header at offset %d''), p)
      else
        (case SscanfDD L (take (nat idx) line) of
           None \<Rightarrow> (Inl (Err ''invalid cross-reference table section header at offset %d''), p)
         | Some (sta, cnt) \<Rightarrow>
             (let addr = addr + (if line ! nat idx = CHR 0x0D \<and> idx < int (length line) - 1
                                    \<and> line ! nat (idx + 1) = CHR 0x0A
                                 then idx + 2 else idx + 1);
                  p = p\<lparr>xref := growTo (xref p) (sta + cnt)\<rparr>
              in case tableEntries (nat cnt) p sta addr of
                   (Some e, a, p) \<Rightarrow> (Inl e, p)
                 | (None, a, p) \<Rightarrow> (Inr a, p))))"

text \<open>
  getStreamElement.  Go's int has 64 bits; the accumulation wraps.  Reading past the
  end of the data panics.
\<close>

definition wrap64 :: "int \<Rightarrow> int" where
  "wrap64 x = (x + 2 ^ 63) mod 2 ^ 64 - 2 ^ 63"

primrec readBytes :: "nat \<Rightarrow> string \<Rightarrow> int \<Rightarrow> error + string \<times> int" where
  "readBytes 0 dat ret = Inr (dat, ret)"
| "readBytes (Suc k) dat ret =
     (case dat of
        [] \<Rightarrow> Inl (Panic ''index out of range'')
      | b # dat \<Rightarrow> readBytes k dat (wrap64 (ret * 256 + int (of_char b))))"

definition getStreamElement :: "string \<Rightarrow> int \<Rightarrow> int \<Rightarrow> error + string \<times> int" where
  "getStreamElement dat sz def = (if sz = 0 then Inr (dat, def) else readBytes (nat sz) dat 0)"

text \<open>
  The loop of readXRefStream over the keys of the stream's Dict.  It collects Prev, Index
  and W and merges the other keys into \<open>p.Info\<close>, where a key already present stays.
\<close>

record xrefAcc =
  aPrev :: int
  aIndex :: "int list"
  aW :: "int list"

fun intsOf :: "Object list \<Rightarrow> int list option" where
  "intsOf [] = Some []"
| "intsOf (OInt i # os) = map_option ((#) i) (intsOf os)"
| "intsOf (_ # os) = None"

definition mergeInfo :: "PDF \<Rightarrow> string \<Rightarrow> Object \<Rightarrow> PDF" where
  "mergeInfo p key val =
     (if map_of (Info p) key = None then p\<lparr>Info := AList.update key val (Info p)\<rparr> else p)"

definition xrefStreamKey ::
  "string \<times> Object \<Rightarrow> xrefAcc \<times> PDF \<Rightarrow> error option \<times> xrefAcc \<times> PDF" where
  "xrefStreamKey kv ap =
     (case (kv, ap) of ((key, val), (a, p)) \<Rightarrow>
        if key = ''Prev'' then
          (case val of
             OInt v \<Rightarrow> (None, a\<lparr>aPrev := v\<rparr>, p)
           | _ \<Rightarrow> (Some (Err ''value of /Prev should be integer in xref stream at offset %d''), a, p))
        else if key = ''Index'' then
          (case val of
             OArray vs \<Rightarrow>
               (case intsOf vs of
                  None \<Rightarrow>
                    (Some (Err ''value of element of /Index should be integer in xref stream at offset %d''),
                     a, p)
                | Some ix \<Rightarrow>
                    if length ix < 2 \<or> length ix mod 2 \<noteq> 0 then
                      (Some (Err ''invalid number of elements in /Index in xref stream at offset %d''),
                       a, p)
                    else (None, a\<lparr>aIndex := ix\<rparr>, p))
           | _ \<Rightarrow> (Some (Err ''value of /Index should be array in xref stream at offset %d''), a, p))
        else if key = ''Size'' then
          (case val of
             OInt v \<Rightarrow>
               (None, a\<lparr>aIndex := (if aIndex a = [] then [0, v] else aIndex a)\<rparr>,
                mergeInfo p key val)
           | _ \<Rightarrow> (Some (Err ''value of /Size should be integer in xref stream at offset %d''), a, p))
        else if key = ''W'' then
          (case val of
             OArray vs \<Rightarrow>
               if length vs \<noteq> 3 then
                 (Some (Err ''value of /W should be array of length 3 in xref stream at offset %d''),
                  a, p)
               else
                 (case intsOf vs of
                    None \<Rightarrow>
                      (Some (Err ''value of element of /W should be integer in xref stream at offset %d''),
                       a, p)
                  | Some ws \<Rightarrow> (None, a\<lparr>aW := aW a @ ws\<rparr>, p))
           | _ \<Rightarrow> (Some (Err ''value of /W should be array in xref stream at offset %d''), a, p))
        else if key \<in> set [''Type'', ''Length'', ''Filter'', ''DecodeParms'', ''F'', ''FFilter'',
                            ''FDecodeParms'', ''DL'']
          then (None, a, p)
        else (None, a, mergeInfo p key val))"

fun xrefStreamKeys :: "Dict \<Rightarrow> xrefAcc \<times> PDF \<Rightarrow> error option \<times> xrefAcc \<times> PDF" where
  "xrefStreamKeys [] ap = (None, ap)"
| "xrefStreamKeys (kv # kvs) ap =
     (case xrefStreamKey kv ap of
        (Some e, ap) \<Rightarrow> (Some e, ap)
      | (None, ap) \<Rightarrow> xrefStreamKeys kvs ap)"

text \<open>
  The walk over the entries of the stream: \<open>xrefStreamRun\<close> is the inner loop for one
  pair (start, count) of the index, \<open>xrefStreamWalk\<close> the outer loop.  An entry is stored
  only in a slot that is nil.  \<open>w\<close> has three elements here.
\<close>

primrec xrefStreamRun ::
  "nat \<Rightarrow> int \<Rightarrow> int list \<Rightarrow> string \<Rightarrow> xrefSlot list \<Rightarrow> error option \<times> string \<times> xrefSlot list" where
  "xrefStreamRun 0 i w dat xs = (None, dat, xs)"
| "xrefStreamRun (Suc k) i w dat xs =
     (case getStreamElement dat (w ! 0) 1 of
        Inl e \<Rightarrow> (Some e, dat, xs)
      | Inr (dat, xtype) \<Rightarrow>
          if xtype \<noteq> 0 \<and> xtype \<noteq> 1 \<and> xtype \<noteq> 2 then
            (Some (Err ''invalid type %d in xref stream at offset %d, index %d''), dat, xs)
          else
            (case getStreamElement dat (w ! 1) 0 of
               Inl e \<Rightarrow> (Some e, dat, xs)
             | Inr (dat, f1) \<Rightarrow>
                 (case getStreamElement dat (w ! 2) 0 of
                    Inl e \<Rightarrow> (Some e, dat, xs)
                  | Inr (dat, f2) \<Rightarrow>
                      if i < 0 \<or> i \<ge> int (length xs) then
                        (Some (Panic ''index out of range''), dat, xs)
                      else
                        xrefStreamRun k (i + 1) w dat
                          (if xs ! nat i = XObject ONull then
                             xs[nat i := (if xtype = 0 then XFree f1 f2
                                          else if xtype = 1 then XDirect f1 f2 ONull
                                          else XStream f1 f2 ONull)]
                           else xs))))"

fun xrefStreamWalk ::
  "int list \<Rightarrow> int list \<Rightarrow> string \<Rightarrow> xrefSlot list \<Rightarrow> error option \<times> string \<times> xrefSlot list" where
  "xrefStreamWalk [] w dat xs = (None, dat, xs)"
| "xrefStreamWalk [s] w dat xs = (Some (Panic ''index out of range''), dat, xs)"
| "xrefStreamWalk (s # cnt # ix) w dat xs =
     (case xrefStreamRun (nat cnt) s w dat xs of
        (Some e, dat, xs) \<Rightarrow> (Some e, dat, xs)
      | (None, dat, xs) \<Rightarrow> xrefStreamWalk ix w dat xs)"

definition readXRefStream ::
  "nat \<Rightarrow> stdlib \<Rightarrow> PDF \<Rightarrow> int \<Rightarrow> ((error + int) \<times> PDF) option" where
  "readXRefStream n L p addr =
     (case readObjectAt n L p addr of
        None \<Rightarrow> None
      | Some (Inl e) \<Rightarrow> Some (Inl (wrap ''reading xref stream at offset %d: %s'' e), p)
      | Some (Inr obj) \<Rightarrow>
          (case obj of
             OStream d dat \<Rightarrow>
               if dictGet d ''Type'' \<noteq> OName ''XRef'' then
                 Some (Inl (Err ''expected /Type XRef in xref stream at offset %d''), p)
               else
                 (case xrefStreamKeys d (\<lparr>aPrev = 0, aIndex = [], aW = []\<rparr>, p) of
                    (Some e, a, p) \<Rightarrow> Some (Inl e, p)
                  | (None, a, p) \<Rightarrow>
                      if aIndex a = [] then
                        Some (Inl (Err ''missing both /Index and /Size in xref stream at offset %d''), p)
                      else if aW a = [] then
                        Some (Inl (Err ''missing /W in xref stream at offset %d''), p)
                      else
                        (case Decompress L \<lparr>Dict = d, Data = dat\<rparr> (aW a ! 0 + aW a ! 1 + aW a ! 2) of
                           (Some e, str) \<Rightarrow>
                             Some (Inl (wrap ''decompressing xref stream at offset %d: %s'' e), p)
                         | (None, str) \<Rightarrow>
                             (let ix = aIndex a;
                                  p = p\<lparr>xref := growTo (xref p)
                                         (ix ! (length ix - 2) + ix ! (length ix - 1))\<rparr>
                              in case xrefStreamWalk ix (aW a) (Data str) (xref p) of
                                   (Some e, dat, xs) \<Rightarrow> Some (Inl e, p\<lparr>xref := xs\<rparr>)
                                 | (None, dat, xs) \<Rightarrow>
                                     if dat \<noteq> [] then
                                       Some (Inl (Err ''extra data left in cross-reference stream at offset %d''),
                                             p\<lparr>xref := xs\<rparr>)
                                     else Some (Inr (aPrev a), p\<lparr>xref := xs\<rparr>))))
           | _ \<Rightarrow> Some (Inl (Err ''expected xref stream at offset %d''), p)))"

text \<open>
  readXRefTable: the sections up to the line \<open>trailer\<close>, then the trailer Dict.  The first
  argument of \<open>tableLoop\<close> bounds the number of sections.
\<close>

primrec tableLoop :: "nat \<Rightarrow> stdlib \<Rightarrow> PDF \<Rightarrow> int \<Rightarrow> ((error + int) \<times> PDF) option" where
  "tableLoop 0 L p addr = None"
| "tableLoop (Suc k) L p addr =
     (case ReadAt p 20 addr of
        None \<Rightarrow> Some (Inl EOF, p)
      | Some buf \<Rightarrow>
          if HasPrefix buf ''trailer'' \<and> (buf ! 7 = CHR 0x0D \<or> buf ! 7 = CHR 0x0A) then
            Some (Inr (addr + (if buf ! 7 = CHR 0x0D \<and> buf ! 8 = CHR 0x0A then 9 else 8)), p)
          else
            (case readXRefTableSection L p addr buf of
               (Inl e, p) \<Rightarrow> Some (Inl e, p)
             | (Inr addr, p) \<Rightarrow> tableLoop k L p addr))"

fun trailerKeys ::
  "nat \<Rightarrow> stdlib \<Rightarrow> Dict \<Rightarrow> int \<Rightarrow> PDF \<Rightarrow> (error option \<times> int \<times> PDF) option" where
  "trailerKeys n L [] prev p = Some (None, prev, p)"
| "trailerKeys n L ((key, val) # kvs) prev p =
     (if key = ''Prev'' then
        (case val of
           OInt v \<Rightarrow> trailerKeys n L kvs v p
         | _ \<Rightarrow>
             Some (Some (Err ''value of /Prev should be an integer in trailer dict at offset %d''),
                   prev, p))
      else if key = ''XRefStm'' then
        (case val of
           OInt v \<Rightarrow>
             (case readXRefStream n L p v of
                None \<Rightarrow> None
              | Some (Inl e, p) \<Rightarrow> Some (Some e, prev, p)
              | Some (Inr x, p) \<Rightarrow> trailerKeys n L kvs prev p)
         | _ \<Rightarrow>
             Some (Some (Err ''value of /XRefStm should be an integer in trailer dict at offset %d''),
                   prev, p))
      else trailerKeys n L kvs prev (mergeInfo p key val))"

definition readXRefTable ::
  "nat \<Rightarrow> stdlib \<Rightarrow> PDF \<Rightarrow> int \<Rightarrow> ((error + int) \<times> PDF) option" where
  "readXRefTable n L p addr =
     (case ReadAt p 6 addr of
        None \<Rightarrow> Some (Inl EOF, p)
      | Some buf \<Rightarrow>
          (case tableLoop n L p
                  (if buf ! 4 = CHR 0x0D \<and> buf ! 5 = CHR 0x0A then addr + 6 else addr + 5) of
             None \<Rightarrow> None
           | Some (Inl e, p) \<Rightarrow> Some (Inl e, p)
           | Some (Inr addr, p) \<Rightarrow>
               (case readObjectAt n L p addr of
                  None \<Rightarrow> None
                | Some (Inl e) \<Rightarrow>
                    Some (Inl (wrap ''reading trailer dict at offset %d: %s'' e), p)
                | Some (Inr obj) \<Rightarrow>
                    (case obj of
                       ODict d \<Rightarrow>
                         (case trailerKeys n L d 0 p of
                            None \<Rightarrow> None
                          | Some (Some e, prev, p) \<Rightarrow> Some (Inl e, p)
                          | Some (None, prev, p) \<Rightarrow> Some (Inr prev, p))
                     | _ \<Rightarrow> Some (Inl (Err ''expected dict after trailer at offset %d''), p)))))"

definition readXRefSection ::
  "nat \<Rightarrow> stdlib \<Rightarrow> PDF \<Rightarrow> int \<Rightarrow> ((error + int) \<times> PDF) option" where
  "readXRefSection n L p addr =
     (case ReadAt p 5 addr of
        None \<Rightarrow> Some (Inl EOF, p)
      | Some buf \<Rightarrow>
          if take 4 buf = ''xref'' \<and> (buf ! 4 = CHR 0x0D \<or> buf ! 4 = CHR 0x0A)
            then readXRefTable n L p addr
          else readXRefStream n L p addr)"

text \<open>
  readXRef follows the chain of sections from \<open>p.start\<close>, the newest first, until a
  section has no Prev.  The chain may be a cycle; the first argument of \<open>readXRefFrom\<close>
  bounds the number of sections read.
\<close>

primrec readXRefFrom ::
  "nat \<Rightarrow> nat \<Rightarrow> stdlib \<Rightarrow> PDF \<Rightarrow> int \<Rightarrow> (error option \<times> PDF) option" where
  "readXRefFrom 0 n L p addr = None"
| "readXRefFrom (Suc k) n L p addr =
     (if addr = 0 then Some (None, p)
      else
        (case readXRefSection n L p addr of
           None \<Rightarrow> None
         | Some (Inl e, p) \<Rightarrow> Some (Some (wrap ''reading xref section at offset %d: %s'' e), p)
         | Some (Inr next, p) \<Rightarrow> readXRefFrom k n L p next))"

definition readXRef :: "nat \<Rightarrow> stdlib \<Rightarrow> PDF \<Rightarrow> (error option \<times> PDF) option" where
  "readXRef n L p =
     (case readStartXRef p of
        (Some e, p) \<Rightarrow> Some (Some (wrap ''reading startxref: %s'' e), p)
      | (None, p) \<Rightarrow> readXRefFrom n n L p (start p))"

section \<open>Package pdfform: choice fields\<close>

text \<open>
  setChoice.  \<open>field\<close> is a Go map, changed in place; the model returns it with the
  error and the document.  The type assertion \<open>field["Ff"].(int)\<close> has no \<open>ok\<close> result
  and panics when the entry is not an int.  The options are read from the key \<open>Opts\<close>;
  the comment at the head of choice.go shows them under \<open>/Opt\<close>.
\<close>

definition checkOpts :: "Object list \<Rightarrow> string \<Rightarrow> error option" where
  "checkOpts opts val =
     (if OString val \<in> set opts then None
      else Some (Err ''value %q is not valid for field %q''))"

definition setChoice ::
  "nat \<Rightarrow> stdlib \<Rightarrow> PDF \<Rightarrow> Reference \<Rightarrow> Dict \<Rightarrow> string \<Rightarrow> (error option \<times> PDF \<times> Dict) option" where
  "setChoice n L pdf fieldref field val =
     (if dictGet field ''V'' = OString val then Some (None, pdf, field)
      else
        (let field = AList.update ''V'' (OString val) field;
             pdf = UpdateObject pdf fieldref (ODict field)
         in case dictGet field ''Ff'' of
              OInt ff \<Rightarrow>
                if ff AND 0x60000 \<noteq> 0 then Some (None, pdf, field)
                else
                  (case dictGet field ''Opts'' of
                     ONull \<Rightarrow> Some (Some (Err ''field[Opts] is not specified''), pdf, field)
                   | ORef oref \<Rightarrow>
                       (case GetArray n L pdf oref of
                          None \<Rightarrow> None
                        | Some (Inl e, pdf) \<Rightarrow> Some (Some (wrap ''field[Opts]: %s'' e), pdf, field)
                        | Some (Inr opts, pdf) \<Rightarrow> Some (checkOpts opts val, pdf, field))
                   | OArray opts \<Rightarrow> Some (checkOpts opts val, pdf, field)
                   | _ \<Rightarrow> Some (Some (Err ''field[Opts] is not an Array''), pdf, field))
            | _ \<Rightarrow> Some (Some (Panic ''interface conversion: interface {} is not int''), pdf, field)))"

text \<open>
  SetField finds the field by its dotted name and hands it to the setter for its type.
  setButton and setText play no part for a choice field; they are arguments here.  The
  loop restarts with the Kids of a parent field (\<open>goto LOOP\<close>), possibly for ever; the
  first argument bounds the number of fields looked at.
\<close>

record setters =
  setButton :: "PDF \<Rightarrow> Reference \<Rightarrow> Dict \<Rightarrow> string \<Rightarrow> error option \<times> PDF"
  setText :: "PDF \<Rightarrow> Dict \<Rightarrow> Dict \<Rightarrow> Reference \<Rightarrow> string \<Rightarrow> float64 \<Rightarrow> error option \<times> PDF"

primrec fieldLoop ::
  "nat \<Rightarrow> nat \<Rightarrow> stdlib \<Rightarrow> setters \<Rightarrow> PDF \<Rightarrow> Dict \<Rightarrow> Object list \<Rightarrow> string \<Rightarrow> string \<Rightarrow> float64
   \<Rightarrow> (error option \<times> PDF) option" where
  "fieldLoop 0 n L H pdf form flds name val fontSize = None"
| "fieldLoop (Suc k) n L H pdf form flds name val fontSize =
     (case flds of
        [] \<Rightarrow> Some (Some (Err ''no such field in form''), pdf)
      | f # rest \<Rightarrow>
          (case f of
             ORef fieldref \<Rightarrow>
               (case GetDict n L pdf fieldref of
                  None \<Rightarrow> None
                | Some (Inl e, pdf) \<Rightarrow> Some (Some (wrap ''AcroForm[Fields][%d]: %s'' e), pdf)
                | Some (Inr field, pdf) \<Rightarrow>
                    (case dictGet field ''T'' of
                       OString fname \<Rightarrow>
                         (let idx = IndexAny name ''.'';
                              want = (if idx \<ge> 0 then take (nat idx) name else name)
                          in if fname \<noteq> want then fieldLoop k n L H pdf form rest name val fontSize
                             else if idx \<ge> 0 then
                               (let name = drop (nat (idx + 1)) name in
                                case dictGet field ''Kids'' of
                                  OArray kids \<Rightarrow> fieldLoop k n L H pdf form kids name val fontSize
                                | ORef kr \<Rightarrow>
                                    (case GetArray n L pdf kr of
                                       None \<Rightarrow> None
                                     | Some (Inl e, pdf) \<Rightarrow> Some (Some e, pdf)
                                     | Some (Inr kids, pdf) \<Rightarrow>
                                         fieldLoop k n L H pdf form kids name val fontSize)
                                | _ \<Rightarrow>
                                    Some (Some (Err ''expected hierarchical parent but Kids is not an Array''),
                                          pdf))
                             else
                               (case dictGet field ''FT'' of
                                  OName ftype \<Rightarrow>
                                    if ftype = ''Btn'' then Some (setButton H pdf fieldref field val)
                                    else if ftype = ''Tx''
                                      then Some (setText H pdf form field fieldref val fontSize)
                                    else if ftype = ''Ch'' then
                                      (case setChoice n L pdf fieldref field val of
                                         None \<Rightarrow> None
                                       | Some (e, pdf, field) \<Rightarrow> Some (e, pdf))
                                    else Some (Some (Err ''field type %q is not supported''), pdf)
                                | _ \<Rightarrow> Some (Some (Err ''AcroForm[Fields][%d][FT] is not a Name''), pdf)))
                     | _ \<Rightarrow> Some (Some (Err ''AcroForm[Fields][%d][T] is not a string''), pdf)))
           | _ \<Rightarrow> Some (Some (Err ''AcroForm[Fields] element is not a Reference''), pdf)))"

definition SetField ::
  "nat \<Rightarrow> stdlib \<Rightarrow> setters \<Rightarrow> PDF \<Rightarrow> string \<Rightarrow> string \<Rightarrow> float64 \<Rightarrow> (error option \<times> PDF) option" where
  "SetField n L H pdf name val fontSize =
     (case (case dictGet (Catalog pdf) ''AcroForm'' of
              ONull \<Rightarrow> Some (Inl (Err ''PDF does not have any form fields''), pdf)
            | ORef f \<Rightarrow>
                (case GetDict n L pdf f of
                   None \<Rightarrow> None
                 | Some (Inl e, pdf) \<Rightarrow> Some (Inl (wrap ''AcroForm: %s'' e), pdf)
                 | Some (Inr form, pdf) \<Rightarrow> Some (Inr form, pdf))
            | ODict f \<Rightarrow> Some (Inr f, pdf)
            | _ \<Rightarrow> Some (Inl (Err ''AcroForm is not a Dict''), pdf)) of
        None \<Rightarrow> None
      | Some (Inl e, pdf) \<Rightarrow> Some (Some e, pdf)
      | Some (Inr form, pdf) \<Rightarrow>
          (case dictGet form ''Fields'' of
             ONull \<Rightarrow> Some (Some (Err ''PDF does not have any form fields''), pdf)
           | ORef a \<Rightarrow>
               (case GetArray n L pdf a of
                  None \<Rightarrow> None
                | Some (Inl e, pdf) \<Rightarrow> Some (Some (wrap ''AcroForm[Fields]: %s'' e), pdf)
                | Some (Inr flds, pdf) \<Rightarrow> fieldLoop n n L H pdf form flds name val fontSize)
           | OArray flds \<Rightarrow> fieldLoop n n L H pdf form flds name val fontSize
           | _ \<Rightarrow> Some (Some (Err ''AcroForm[Fields] is not an Array''), pdf)))"

section \<open>Inputs used in the examples\<close>

text \<open>
  A library in which ParseFloat, the zlib decoder and Sscanf reject every input.  It is
  used for inputs on which none of them is called.
\<close>

definition stubLib :: stdlib where
  "stubLib = \<lparr>ParseFloat = (\<lambda>s. None), zlibInflate = (\<lambda>s. None), SscanfDD = (\<lambda>s. None)\<rparr>"

text \<open>
  A compressed object stream: \<open>objStmDeflated\<close> is the zlib encoding (level 9) of
  \<open>objStmPlain\<close>, which holds the objects 10, 11, 13 and 12, in this order.  In
  \<open>exampleLib\<close> the zlib decoder knows this one input.
\<close>

definition objStmPlain :: string where
  "objStmPlain = ''10 0 11 5 13 10 12 15 (a10)(b11)(c13)(d12)''"

definition objStmDeflated :: string where
  "objStmDeflated =
     ''x'' @ [CHR 0xDA, CHR 0x0D, CHR 0xC6, CHR 0xB9, CHR 0x11, CHR 0x00] @ ''0'' @
     [CHR 0x08, CHR 0x03, CHR 0xC1] @ ''V'' @ [CHR 0x14, CHR 0xA2, CHR 0x8C, CHR 0x83, CHR 0xA1] @
     '' ?'' @ [CHR 0xFD, CHR 0xD7, CHR 0x60] @ ''o'' @ [CHR 0xB4, CHR 0xA4] @ ''R'' @
     [CHR 0xA0, CHR 0x11] @ ''-~K'' @ [CHR 0x8C] @ ''b'' @ [CHR 0x91, CHR 0x8E, CHR 0x0D, CHR 0x8E] @
     ''C;.'' @ [CHR 0xE5, CHR 0x07, CHR 0xA3] @ ''M'' @ [CHR 0x08, CHR 0x0F]"

text \<open>
  For the examples, Sscanf on two unsigned decimal numbers separated by blanks (the
  form of the header of a cross-reference table section).
\<close>

definition scanTwo :: "string \<Rightarrow> (int \<times> int) option" where
  "scanTwo s =
     (let a = takeWhile isDigit s; r = dropWhile (\<lambda>c. c = CHR '' '') (dropWhile isDigit s);
          b = takeWhile isDigit r
      in if a = [] \<or> b = [] \<or> r = dropWhile isDigit s then None
         else Some (fst (Atoi a), fst (Atoi b)))"

definition exampleLib :: stdlib where
  "exampleLib =
     \<lparr>ParseFloat = (\<lambda>s. None),
      zlibInflate = (\<lambda>s. if s = objStmDeflated then Some objStmPlain else None),
      SscanfDD = scanTwo\<rparr>"

text \<open>
  Scenario S3 of the specification: object 12 is at index 3 of the compressed object
  stream 9, which is at offset 0 of the file.  Slot 8 is on the free list.
\<close>

definition fileS3 :: string where
  "fileS3 =
     ''9 0 obj <</Type/ObjStm/N 4/First 22/Filter/FlateDecode/Length 46>> stream\<newline>''
     @ objStmDeflated @ ''\<newline>endstream endobj\<newline>''"

definition pdfS3 :: PDF where
  "pdfS3 =
     \<lparr>fh = fileS3, start = 0,
      xref = [XFree 0 65535] @ replicate 7 (XObject ONull) @
             [XFree 0 1, XDirect 0 0 ONull, XObject ONull, XObject ONull, XStream 9 3 ONull],
      Info = [], Catalog = [], updates = []\<rparr>"

text \<open>A document with the single object 1, a string, at offset 0.\<close>

definition pdfOne :: PDF where
  "pdfOne =
     \<lparr>fh = ''1 0 obj (old) endobj\<newline>'', start = 0,
      xref = [XFree 0 65535, XDirect 0 0 ONull],
      Info = [], Catalog = [], updates = []\<rparr>"

text \<open>
  A document whose object stream 9 names a filter that Decompress does not support;
  object 12 is at index 0 of that stream.
\<close>

definition pdfLZW :: PDF where
  "pdfLZW =
     \<lparr>fh = ''9 0 obj <</Type/ObjStm/N 1/First 5/Filter/LZWDecode/Length 9>> stream\<newline>12 0 (hi)\<newline>endstream endobj\<newline>'',
      start = 0,
      xref = [XFree 0 65535] @ replicate 8 (XObject ONull) @
             [XDirect 0 0 ONull, XObject ONull, XObject ONull, XStream 9 0 ONull],
      Info = [], Catalog = [], updates = []\<rparr>"

text \<open>
  A form with two choice fields: object 1 (Position) has no \<open>/Ff\<close> entry; object 2
  (Section) is not editable and has no list of options.  \<open>noSetters\<close> stands for the
  setters of the other field types, which are not reached.
\<close>

definition noSetters :: setters where
  "noSetters =
     \<lparr>setButton = (\<lambda>pdf r f v. (None, pdf)), setText = (\<lambda>pdf form f r v s. (None, pdf))\<rparr>"

definition fileForm :: string where
  "fileForm =
     ''1 0 obj <</FT/Ch/T(Position)/V(Chief)/Opt[(Chief)(Unit)]>> endobj\<newline>''
     @ ''2 0 obj <</FT/Ch/T(Section)/Ff 0/V(Ops)>> endobj\<newline>''
     @ ''startxref\<newline>0\<newline>%%EOF\<newline>''"

definition pdfForm :: PDF where
  "pdfForm =
     \<lparr>fh = fileForm, start = 0,
      xref = [XFree 0 65535, XDirect 0 0 ONull, XDirect 66 0 ONull],
      Info = [],
      Catalog = [(''AcroForm'', ODict [(''Fields'',
        OArray [ORef \<lparr>Number = 1, Generation = 0\<rparr>, ORef \<lparr>Number = 2, Generation = 0\<rparr>])])],
      updates = []\<rparr>"

text \<open>
  A form whose only field, Section, is a choice field that is not editable and has its
  list of options under \<open>/Opt\<close>, as in the comment at the head of choice.go.
\<close>

definition fileFormOpt :: string where
  "fileFormOpt =
     ''1 0 obj <</FT/Ch/T(Section)/Ff 0/V(Ops)/Opt[(Ops)(Plans)]>> endobj\<newline>''
     @ ''startxref\<newline>0\<newline>%%EOF\<newline>''"

definition pdfFormOpt :: PDF where
  "pdfFormOpt =
     \<lparr>fh = fileFormOpt, start = 0,
      xref = [XFree 0 65535, XDirect 0 0 ONull],
      Info = [],
      Catalog = [(''AcroForm'', ODict [(''Fields'', OArray [ORef \<lparr>Number = 1, Generation = 0\<rparr>])])],
      updates = []\<rparr>"

text \<open>
  Two documents with an incremental update: object 1 is the string \<open>old\<close> at offset 9
  and, in the update, the string \<open>new\<close>.  In the first document both cross-reference
  sections are tables; in the second the older section is a cross-reference stream.
  \<open>pdfTwoRevsNewest\<close> and \<open>pdfStreamRevNewest\<close> are the documents after the newest
  section has been read, \<open>pdfTwoRevsMerged\<close> and \<open>pdfStreamRevMerged\<close> after the older
  section has been read as well.
\<close>

definition fileTwoRevs :: string where
  "fileTwoRevs =
     ''%PDF-1.4\<newline>''
     @ ''1 0 obj (old) endobj\<newline>''
     @ ''xref\<newline>''
     @ ''0 2\<newline>''
     @ ''0000000000 65535 f \<newline>''
     @ ''0000000009 00000 n \<newline>''
     @ ''trailer\<newline>''
     @ ''<</Size 2>>\<newline>''
     @ ''startxref\<newline>''
     @ ''30\<newline>''
     @ ''%%EOF\<newline>''
     @ ''1 0 obj (new) endobj\<newline>''
     @ ''xref\<newline>''
     @ ''1 1\<newline>''
     @ ''0000000118 00000 n \<newline>''
     @ ''trailer\<newline>''
     @ ''<</Size 2/Prev 30>>\<newline>''
     @ ''startxref\<newline>''
     @ ''139\<newline>''
     @ ''%%EOF\<newline>''"

definition pdfTwoRevs :: PDF where
  "pdfTwoRevs = \<lparr>fh = fileTwoRevs, start = 0, xref = [], Info = [], Catalog = [], updates = []\<rparr>"

definition pdfTwoRevsNewest :: PDF where
  "pdfTwoRevsNewest =
     pdfTwoRevs\<lparr>xref := [XObject ONull, XDirect 118 0 ONull], Info := [(''Size'', OInt 2)]\<rparr>"

definition pdfTwoRevsMerged :: PDF where
  "pdfTwoRevsMerged =
     pdfTwoRevs\<lparr>xref := [XFree 0 65535, XDirect 118 0 ONull], Info := [(''Size'', OInt 2)]\<rparr>"

definition fileStreamRev :: string where
  "fileStreamRev =
     ''%PDF-1.5\<newline>''
     @ ''1 0 obj (old) endobj\<newline>''
     @ ''2 0 obj <</Type/XRef/Size 3/W[1 1 1]/Root 1 0 R/Length 9>> stream\<newline>'' @ [CHR 0x00, CHR 0x00, CHR 0xFF, CHR 0x01, CHR 0x09, CHR 0x00, CHR 0x01, CHR 0x1E, CHR 0x00] @ ''\<newline>endstream endobj\<newline>''
     @ ''startxref\<newline>''
     @ ''30\<newline>''
     @ ''%%EOF\<newline>''
     @ ''1 0 obj (new) endobj\<newline>''
     @ ''xref\<newline>''
     @ ''1 1\<newline>''
     @ ''0000000142 00000 n \<newline>''
     @ ''trailer\<newline>''
     @ ''<</Size 3/Prev 30>>\<newline>''
     @ ''startxref\<newline>''
     @ ''163\<newline>''
     @ ''%%EOF\<newline>''"

definition pdfStreamRev :: PDF where
  "pdfStreamRev = \<lparr>fh = fileStreamRev, start = 0, xref = [], Info = [], Catalog = [], updates = []\<rparr>"

definition pdfStreamRevNewest :: PDF where
  "pdfStreamRevNewest =
     pdfStreamRev\<lparr>xref := [XObject ONull, XDirect 142 0 ONull], Info := [(''Size'', OInt 3)]\<rparr>"

definition pdfStreamRevMerged :: PDF where
  "pdfStreamRevMerged =
     pdfStreamRev\<lparr>xref := [XFree 0 255, XDirect 142 0 ONull, XDirect 30 0 ONull],
       Info := [(''Size'', OInt 3), (''Root'', ORef \<lparr>Number = 1, Generation = 0\<rparr>)]\<rparr>"

text \<open>
  One table keeps another when it is at least as long and agrees with it on every slot
  of the other that is not nil.
\<close>

definition keeps :: "xrefSlot list \<Rightarrow> xrefSlot list \<Rightarrow> bool" where
  "keeps xs ys \<longleftrightarrow>
     length xs \<le> length ys \<and> (\<forall>i\<in>{0..<length xs}. xs ! i \<noteq> XObject ONull \<longrightarrow> ys ! i = xs ! i)"

text \<open>
  One reader extends another when it gives every result that the other gives.
\<close>

definition extends :: "reader \<Rightarrow> reader \<Rightarrow> bool" where
  "extends rd rd' \<longleftrightarrow> (\<forall>off b m r. rd off b m = Some r \<longrightarrow> rd' off b m = Some r)"

section \<open>Basic facts about the parser\<close>

lemma p_extend_enough: "sz \<le> int (length (pby p)) \<Longrightarrow> p_extend p sz = (None, p)"
  by (simp add: p_extend.simps)

lemma skipWhitespace_none:
  "pby p = c # cs \<Longrightarrow> c \<notin> set whitespace \<Longrightarrow> skipWhitespace p = (None, p)"
  by (simp add: skipWhitespace.simps p_extend_enough)

lemma skipWhitespace_eof:
  "pby p = [] \<Longrightarrow> pmore p = None \<Longrightarrow> skipWhitespace p = (Some EOF, p)"
  by (simp add: skipWhitespace.simps p_extend.simps)

lemma stName_regular:
  "pby p = c # cs \<Longrightarrow> isRegularChar c \<Longrightarrow> c \<noteq> CHR ''#'' \<Longrightarrow>
   stName p = (Next StName, skip (p\<lparr>paccum := paccum p @ [c]\<rparr>) 1)"
  by (auto simp: stName_def p_extend_enough isRegularChar_def nonRegularChars_def)

lemma stName_delim:
  "pby p = c # cs \<Longrightarrow> \<not> isRegularChar c \<Longrightarrow> stName p = (Done (OName (paccum p)), p)"
  by (auto simp: stName_def p_extend_enough isRegularChar_def nonRegularChars_def)

text \<open>
  A run of regular characters other than \<open>#\<close>, followed by a delimiter, is read as a
  name; the delimiter stays in the buffer.
\<close>

lemma run_name:
  "\<forall>c\<in>set k. isRegularChar c \<and> c \<noteq> CHR ''#'' \<Longrightarrow> \<not> isRegularChar d \<Longrightarrow>
   pby p = k @ d # rest \<Longrightarrow>
   run (Suc (length k + j)) L StName p =
     Some (Inr (OName (paccum p @ k)),
           p\<lparr>pby := d # rest, poffset := poffset p + int (length k), paccum := paccum p @ k\<rparr>)"
proof (induction k arbitrary: p)
  case Nil
  then show ?case by (simp add: dispatch_def stName_delim)
next
  case (Cons c k)
  let ?q = "skip (p\<lparr>paccum := paccum p @ [c]\<rparr>) 1"
  from Cons.prems have st: "stName p = (Next StName, ?q)"
    by (intro stName_regular) auto
  have q: "pby ?q = k @ d # rest" using Cons.prems by (simp add: skip_def)
  from Cons.prems have "\<forall>c\<in>set k. isRegularChar c \<and> c \<noteq> CHR ''#''" by simp
  from Cons.IH [OF this Cons.prems(2) q]
  show ?case using st by (simp add: dispatch_def skip_def)
qed

lemma readObject_name:
  assumes "\<forall>c\<in>set k. isRegularChar c \<and> c \<noteq> CHR ''#''" and "\<not> isRegularChar d"
  shows "readObject (Suc (Suc (length k + j))) L off (CHR ''/'' # k @ d # rest) m =
     Some (Inr (d # rest, off + 1 + int (length k), OName k, m))"
proof -
  let ?p = "\<lparr>pby = CHR ''/'' # k @ d # rest, pmore = m, paccum = [], pparens = 0, poffset = off\<rparr>"
  have "stStart ?p = (Next StName, (skip ?p 1)\<lparr>paccum := []\<rparr>)"
    by (simp add: stStart_def p_extend_enough)
  moreover have "pby ((skip ?p 1)\<lparr>paccum := []\<rparr>) = k @ d # rest" by (simp add: skip_def)
  note run_name [OF assms this, of j L]
  ultimately show ?thesis
    by (simp add: readObject_def readObjectWith_def dispatch_def skip_def)
qed

lemma readObject_one:
  "readObject (Suc (Suc (Suc (Suc i)))) L off (CHR '' '' # CHR ''1'' # CHR ''/'' # t) m =
     Some (Inr (CHR ''/'' # t, off + 2, OInt 1, m))"
  by (simp add: readObject_def readObjectWith_def dispatch_def stStart_def p_extend_enough
      skip_def stNumObjRef.simps refObjRE_def refObjPrefixRE_def isDigit_def isSpace_def
      whitespace_def stNumber.simps nonRegularChars_def Atoi_def digitVal_def maxInt_def
      list_all_def)

lemma readObject_two_end:
  "readObject (Suc (Suc (Suc (Suc i)))) L off '' 2>>'' m =
     Some (Inr (''>>'', off + 2, OInt 2, m))"
  by (simp add: readObject_def readObjectWith_def dispatch_def stStart_def p_extend_enough
      skip_def stNumObjRef.simps refObjRE_def refObjPrefixRE_def isDigit_def isSpace_def
      whitespace_def stNumber.simps nonRegularChars_def Atoi_def digitVal_def maxInt_def
      list_all_def)

lemma dict_loop_dup:
  assumes k: "\<forall>c\<in>set k. isRegularChar c \<and> c \<noteq> CHR ''#''"
    and M: "M = Suc (Suc (Suc (Suc (length k + j))))"
    and p: "pby p = CHR ''/'' # k @ '' 1/'' @ k @ '' 2>>''"
  shows "stDictLoop (Suc (Suc (Suc i))) (readObject M L) p [] =
     Some (Inr [(k, OInt 2)],
           p\<lparr>pby := [], poffset := poffset p + 2 * int (length k) + 8\<rparr>)"
proof -
  have sp: "\<not> isRegularChar (CHR '' '')" by (simp add: isRegularChar_def nonRegularChars_def)
  have M': "M = Suc (Suc (length k + (2 + j)))" using M by simp
  have n1: "readObject M L off (CHR ''/'' # k @ CHR '' '' # t) m =
     Some (Inr (CHR '' '' # t, off + 1 + int (length k), OName k, m))" for off t m
    unfolding M' by (rule readObject_name [OF k sp])
  have v1: "readObject M L off (CHR '' '' # CHR ''1'' # CHR ''/'' # t) m =
     Some (Inr (CHR ''/'' # t, off + 2, OInt 1, m))" for off t m
    unfolding M by (rule readObject_one)
  have v2: "readObject M L off '' 2>>'' m = Some (Inr (''>>'', off + 2, OInt 2, m))" for off m
    unfolding M by (rule readObject_two_end)
  have ws: "CHR ''/'' \<notin> set whitespace" "CHR ''>'' \<notin> set whitespace"
    by (simp_all add: whitespace_def)
  show ?thesis
    using p
    by (simp add: skipWhitespace_none [OF _ ws(1)] skipWhitespace_none [OF _ ws(2)]
        p_extend_enough n1 v1 v2 skip_def)
qed

section \<open>A larger bound gives the same result\<close>

text \<open>
  The bounds on the work of the parser and on the depth of Get only decide whether a
  result is reached: a result reached within one bound is the result within every
  larger bound.
\<close>

lemma extendsD: "extends rd rd' \<Longrightarrow> rd off b m = Some r \<Longrightarrow> rd' off b m = Some r"
  by (simp add: extends_def)

lemma stNumberedObj_mono:
  assumes "extends rd rd'" and "stNumberedObj rd p m = Some r"
  shows "stNumberedObj rd' p m = Some r"
proof -
  obtain m1 m2 m3 n where m: "m = (m1, m2, m3, n)" by (cases m) auto
  let ?q = "skip p (n - 1)"
  from assms(2) m obtain x where x: "rd (poffset ?q) (pby ?q) (pmore ?q) = Some x"
    by (cases "rd (poffset ?q) (pby ?q) (pmore ?q)") (auto simp: stNumberedObj_def Let_def)
  from extendsD [OF assms(1) x] have "rd' (poffset ?q) (pby ?q) (pmore ?q) = Some x" .
  with x assms(2) m show ?thesis by (simp add: stNumberedObj_def Let_def)
qed

lemma stNumObjRef_mono:
  "extends rd rd' \<Longrightarrow> stNumObjRef rd p = Some r \<Longrightarrow> stNumObjRef rd' p = Some r"
proof (induction rd p rule: stNumObjRef.induct)
  case (1 rd p)
  note ext = "1.prems"(1)
  show ?case
  proof (cases "refObjRE (pby p)")
    case (Some m)
    with "1.prems" stNumberedObj_mono [OF ext, of p m r] show ?thesis
      by (auto simp: stNumObjRef.simps [of _ p] split: if_splits)
  next
    case None
    show ?thesis
    proof (cases "refObjPrefixRE (pby p)")
      case False
      with None "1.prems" show ?thesis by (simp add: stNumObjRef.simps [of _ p])
    next
      case True
      obtain e q where c: "callMore p = (e, q)" by (cases "callMore p") auto
      show ?thesis
      proof (cases e)
        case None': None
        with None True c "1.prems" have "stNumObjRef rd q = Some r"
          by (simp add: stNumObjRef.simps [of _ p])
        from "1.IH" [OF None _ c [symmetric] None' ext this] True
        have "stNumObjRef rd' q = Some r" by simp
        with None True c None' show ?thesis by (simp add: stNumObjRef.simps [of _ p])
      next
        case (Some err)
        with None True c "1.prems" show ?thesis by (simp add: stNumObjRef.simps [of _ p])
      qed
    qed
  qed
qed

lemma stArray_mono:
  assumes "extends rd rd'"
  shows "stArray k rd p a = Some r \<Longrightarrow> stArray (k + j) rd' p a = Some r"
proof (induction k arbitrary: p a)
  case 0
  then show ?case by simp
next
  case (Suc k)
  obtain e q where s: "skipWhitespace p = (e, q)" by (cases "skipWhitespace p") auto
  show ?case
  proof (cases "e = None \<and> pby q ! 0 \<noteq> CHR '']''")
    case False
    with s Suc.prems show ?thesis by (auto split: option.splits)
  next
    case True
    with s Suc.prems obtain x where x: "rd (poffset q) (pby q) (pmore q) = Some x"
      by (cases "rd (poffset q) (pby q) (pmore q)") auto
    from extendsD [OF assms x] have x': "rd' (poffset q) (pby q) (pmore q) = Some x" .
    show ?thesis
    proof (cases x)
      case (Inl err)
      with True s x x' Suc.prems show ?thesis by simp
    next
      case (Inr y)
      obtain rem newoff obj m where y: "y = (rem, newoff, obj, m)" by (cases y) auto
      with Inr True s x Suc.prems
      have "stArray k rd (q\<lparr>pby := rem, poffset := newoff, pmore := m\<rparr>) (a @ [obj]) = Some r"
        by simp
      from Suc.IH [OF this] Inr y True s x' show ?thesis by simp
    qed
  qed
qed


lemma stDictLoop_mono:
  assumes "extends rd rd'"
  shows "stDictLoop k rd p d = Some r \<Longrightarrow> stDictLoop (k + j) rd' p d = Some r"
proof (induction k arbitrary: p d)
  case 0
  then show ?case by simp
next
  case (Suc k)
  obtain e q where s: "skipWhitespace p = (e, q)" by (cases "skipWhitespace p") auto
  obtain e2 q2 where x2: "p_extend q 2 = (e2, q2)" by (cases "p_extend q 2") auto
  show ?case
  proof (cases "e = None \<and> e2 = None \<and> \<not> (pby q2 ! 0 = CHR ''>'' \<and> pby q2 ! 1 = CHR ''>'')")
    case False
    with s x2 Suc.prems show ?thesis by (auto split: option.splits)
  next
    case True
    with s x2 Suc.prems obtain x where x: "rd (poffset q2) (pby q2) (pmore q2) = Some x"
      by (cases "rd (poffset q2) (pby q2) (pmore q2)") auto
    from extendsD [OF assms x] have x': "rd' (poffset q2) (pby q2) (pmore q2) = Some x" .
    show ?thesis
    proof (cases "\<exists>rem newoff key m. x = Inr (rem, newoff, OName key, m)")
      case False
      with True s x2 x x' Suc.prems show ?thesis
        by (auto simp: Let_def cong: conj_cong split: sum.splits Object.splits)
    next
      case name: True
      then obtain rem newoff key m where xk: "x = Inr (rem, newoff, OName key, m)" by blast
      let ?q = "q2\<lparr>pby := rem, poffset := newoff, pmore := m\<rparr>"
      from True s x2 x xk Suc.prems obtain y where y: "rd (poffset ?q) (pby ?q) (pmore ?q) = Some y"
        by (cases "rd (poffset ?q) (pby ?q) (pmore ?q)") (auto simp: Let_def)
      from extendsD [OF assms y] have y': "rd' (poffset ?q) (pby ?q) (pmore ?q) = Some y" .
      show ?thesis
      proof (cases y)
        case (Inl err)
        with True s x2 x x' xk y y' Suc.prems show ?thesis
          by (simp add: Let_def cong: conj_cong)
      next
        case (Inr z)
        obtain rem2 newoff2 obj2 m2 where z: "z = (rem2, newoff2, obj2, m2)" by (cases z) auto
        with Inr True s x2 x xk y Suc.prems
        have "stDictLoop k rd (?q\<lparr>pby := rem2, poffset := newoff2, pmore := m2\<rparr>)
                (AList.update key obj2 d) = Some r"
          by (simp add: Let_def cong: conj_cong)
        from Suc.IH [OF this] Inr z True s x2 x' xk y' show ?thesis
          by (simp add: Let_def cong: conj_cong)
      qed
    qed
  qed
qed


lemma stDict_mono:
  assumes "extends rd rd'" and "stDict k rd p = Some r"
  shows "stDict (k + j) rd' p = Some r"
proof -
  from assms(2) obtain x where x: "stDictLoop k rd p [] = Some x"
    by (cases "stDictLoop k rd p []") (auto simp: stDict_def)
  from stDictLoop_mono [OF assms(1) x] have "stDictLoop (k + j) rd' p [] = Some x" .
  with x assms(2) show ?thesis by (simp add: stDict_def)
qed

lemma dispatch_mono:
  assumes "extends rd rd'" and "dispatch L k rd st p = Some r"
  shows "dispatch L (k + j) rd' st p = Some r"
proof (cases st)
  case StNumObjRef
  with assms(2) have "stNumObjRef rd p = Some r" by (simp add: dispatch_def)
  from stNumObjRef_mono [OF assms(1) this] StNumObjRef show ?thesis by (simp add: dispatch_def)
next
  case StArray
  with assms(2) have "stArray k rd p [] = Some r" by (simp add: dispatch_def)
  from stArray_mono [OF assms(1) this] StArray show ?thesis by (simp add: dispatch_def)
next
  case StDict
  with assms(2) have "stDict k rd p = Some r" by (simp add: dispatch_def)
  from stDict_mono [OF assms(1) this] StDict show ?thesis by (simp add: dispatch_def)
qed (use assms(2) in \<open>simp_all add: dispatch_def\<close>)

lemma readObjectWith_mono:
  assumes "\<And>st p r. loop st p = Some r \<Longrightarrow> loop' st p = Some r"
  shows "extends (readObjectWith loop) (readObjectWith loop')"
proof -
  have "readObjectWith loop' off b m = Some r" if "readObjectWith loop off b m = Some r" for off b m r
  proof -
    let ?p = "\<lparr>pby = b, pmore = m, paccum = [], pparens = 0, poffset = off\<rparr>"
    from that obtain x where x: "loop StStart ?p = Some x"
      by (cases "loop StStart ?p") (auto simp: readObjectWith_def)
    from assms [OF x] x that show ?thesis by (simp add: readObjectWith_def)
  qed
  then show ?thesis by (simp add: extends_def)
qed

lemma run_Suc:
  "run n L st p = Some r \<Longrightarrow> run (Suc n) L st p = Some r"
proof (induction n arbitrary: st p r)
  case 0
  then show ?case by simp
next
  case (Suc n)
  have ext: "extends (readObjectWith (run n L)) (readObjectWith (run (Suc n) L))"
    by (rule readObjectWith_mono) (rule Suc.IH)
  from Suc.prems obtain s q where d: "dispatch L n (readObjectWith (run n L)) st p = Some (s, q)"
    by (cases "dispatch L n (readObjectWith (run n L)) st p") auto
  from dispatch_mono [OF ext d, of 1]
  have d': "dispatch L (Suc n) (readObjectWith (run (Suc n) L)) st p = Some (s, q)" by simp
  show ?case
  proof (cases s)
    case (Next st')
    with d Suc.prems have "run n L st' q = Some r" by simp
    from Suc.IH [OF this] have "run (Suc n) L st' q = Some r" .
    with Next d' show ?thesis by (simp del: run.simps add: run.simps(2) [of "Suc n"])
  next
    case (Done obj)
    with d Suc.prems have "r = (Inr obj, q)" by simp
    with Done d' show ?thesis by (simp del: run.simps add: run.simps(2) [of "Suc n"])
  next
    case (Fail e)
    with d Suc.prems have "r = (Inl e, q)" by simp
    with Fail d' show ?thesis by (simp del: run.simps add: run.simps(2) [of "Suc n"])
  qed
qed

lemma run_mono: "run n L st p = Some r \<Longrightarrow> run (n + j) L st p = Some r"
proof (induction j)
  case 0
  then show ?case by simp
next
  case (Suc j)
  then have "run (n + j) L st p = Some r" by simp
  from run_Suc [OF this] show ?case by simp
qed

lemma readObject_mono: "extends (readObject n L) (readObject (n + j) L)"
  unfolding readObject_def by (rule readObjectWith_mono) (rule run_mono)

lemma readObject_monoD:
  "readObject n L off b m = Some r \<Longrightarrow> readObject (n + j) L off b m = Some r"
  by (rule extendsD [OF readObject_mono])

lemma readObjectFrom_mono:
  assumes "readObjectFrom n L b = Some r"
  shows "readObjectFrom (n + j) L b = Some r"
proof -
  from assms obtain x where x: "readObject n L 0 b None = Some x"
    by (cases "readObject n L 0 b None") (auto simp: readObjectFrom_def)
  from readObject_monoD [OF x] x assms show ?thesis by (simp add: readObjectFrom_def)
qed

lemma readObjectAt_mono:
  assumes "readObjectAt n L p addr = Some r"
  shows "readObjectAt (n + j) L p addr = Some r"
proof -
  let ?m = "Some (if addr < 0 then [] else drop (nat addr) (fh p))"
  from assms obtain x where x: "readObject n L addr [] ?m = Some x"
    by (cases "readObject n L addr [] ?m") (auto simp: readObjectAt_def)
  from readObject_monoD [OF x] x assms show ?thesis by (simp add: readObjectAt_def)
qed


lemma headerInts_mono:
  "headerInts k n L dat off = Some r \<Longrightarrow> headerInts k (n + j) L dat off = Some r"
proof (induction k arbitrary: off)
  case 0
  then show ?case by simp
next
  case (Suc k)
  from Suc.prems obtain x where x: "readObjectFrom n L (drop (nat off) dat) = Some x"
    by (cases "readObjectFrom n L (drop (nat off) dat)") auto
  note x' = readObjectFrom_mono [OF x, of j]
  show ?case
  proof (cases "\<exists>i delta. x = Inr (OInt i, delta)")
    case True
    then obtain i delta where xi: "x = Inr (OInt i, delta)" by blast
    with x Suc.prems have "headerInts k n L dat (off + delta) = Some r" by simp
    from Suc.IH [OF this] x' xi show ?thesis by simp
  next
    case False
    with x x' Suc.prems show ?thesis by (auto split: sum.splits Object.splits)
  qed
qed

lemma extractObjectFromStream_mono:
  assumes "extractObjectFromStream n L s idx = Some r"
  shows "extractObjectFromStream (n + j) L s idx = Some r"
proof (cases "\<exists>cnt first. dictGet (Dict s) ''Type'' = OName ''ObjStm'' \<and> dictGet (Dict s) ''N'' = OInt cnt
    \<and> \<not> (idx < 0 \<or> idx \<ge> cnt) \<and> dictGet (Dict s) ''First'' = OInt first")
  case False
  with assms show ?thesis
    by (auto simp: extractObjectFromStream_def split: Object.splits if_splits)
next
  case True
  then obtain cnt first where c: "dictGet (Dict s) ''Type'' = OName ''ObjStm''"
      "dictGet (Dict s) ''N'' = OInt cnt" "\<not> (idx < 0 \<or> idx \<ge> cnt)"
      "dictGet (Dict s) ''First'' = OInt first"
    by blast
  from assms c obtain h where h: "headerInts (nat (idx * 2 + 1)) n L (Data s) 0 = Some h"
    by (cases "headerInts (nat (idx * 2 + 1)) n L (Data s) 0")
       (auto simp: extractObjectFromStream_def)
  note h' = headerInts_mono [OF h, of j]
  show ?thesis
  proof (cases h)
    case (Inl e)
    with assms c h h' show ?thesis by (simp add: extractObjectFromStream_def)
  next
    case (Inr off)
    with assms c h obtain x where x: "readObjectFrom n L (drop (nat off) (Data s)) = Some x"
      by (cases "readObjectFrom n L (drop (nat off) (Data s))")
         (auto simp: extractObjectFromStream_def)
    note x' = readObjectFrom_mono [OF x, of j]
    show ?thesis
    proof (cases "\<exists>rel delta. x = Inr (OInt rel, delta)
        \<and> \<not> (first + rel < 0 \<or> first + rel > int (length (Data s)))")
      case False
      with assms c h h' Inr x x' show ?thesis
        by (auto simp: extractObjectFromStream_def Let_def split: sum.splits Object.splits)
    next
      case True
      then obtain rel delta where r: "x = Inr (OInt rel, delta)"
          "\<not> (first + rel < 0 \<or> first + rel > int (length (Data s)))"
        by blast
      with assms c h Inr x obtain y
        where y: "readObjectFrom n L (drop (nat (first + rel)) (Data s)) = Some y"
        by (cases "readObjectFrom n L (drop (nat (first + rel)) (Data s))")
           (auto simp: extractObjectFromStream_def Let_def)
      from readObjectFrom_mono [OF y, of j] y assms c h h' Inr x x' r show ?thesis
        by (simp add: extractObjectFromStream_def Let_def)
    qed
  qed
qed


lemma Get_mono: "Get n L p r = Some x \<Longrightarrow> Get (n + j) L p r = Some x"
proof (induction n arbitrary: p r x)
  case 0
  then show ?case by simp
next
  case (Suc n)
  show ?case
  proof (cases "Number r < 1 \<or> Number r \<ge> int (length (xref p))")
    case True
    with Suc.prems show ?thesis by simp
  next
    case inr: False
    show ?thesis
    proof (cases "xref p ! nat (Number r)")
      case (XFree nxt gen)
      with inr Suc.prems show ?thesis by simp
    next
      case (XObject obj)
      with inr Suc.prems show ?thesis by simp
    next
      case (XDirect off gen cache)
      show ?thesis
      proof (cases "gen = Generation r \<and> cache = ONull")
        case False
        with XDirect inr Suc.prems show ?thesis by auto
      next
        case True
        with XDirect inr Suc.prems obtain y where y: "readObjectAt n L p off = Some y"
          by (cases "readObjectAt n L p off") auto
        from readObjectAt_mono [OF y, of j] y True XDirect inr Suc.prems show ?thesis by simp
      qed
    next
      case (XStream stream index cache)
      show ?thesis
      proof (cases "Generation r = 0 \<and> cache = ONull")
        case False
        with XStream inr Suc.prems show ?thesis by auto
      next
        case True
        let ?c = "\<lparr>Number = stream, Generation = 0\<rparr>"
        from True XStream inr Suc.prems obtain y where y: "Get n L p ?c = Some y"
          by (cases "Get n L p ?c") auto
        note y' = Suc.IH [OF y]
        show ?thesis
        proof (cases "\<exists>d dat q. y = (Inr (OStream d dat), q)")
          case False
          with y y' True XStream inr Suc.prems show ?thesis
            by (auto split: sum.splits Object.splits prod.splits)
        next
          case str: True
          then obtain d dat q where yd: "y = (Inr (OStream d dat), q)" by blast
          obtain e s where dc: "Decompress L \<lparr>Dict = d, Data = dat\<rparr> 0 = (e, s)"
            by (cases "Decompress L \<lparr>Dict = d, Data = dat\<rparr> 0") auto
          show ?thesis
          proof (cases "\<exists>m. e = Some (Panic m)")
            case True
            with y y' yd dc \<open>Generation r = 0 \<and> cache = ONull\<close> XStream inr Suc.prems
            show ?thesis by auto
          next
            case np: False
            with y yd dc True XStream inr Suc.prems
            obtain z where z: "extractObjectFromStream n L s index = Some z"
              by (cases "extractObjectFromStream n L s index")
                 (auto split: option.splits error.splits)
            from extractObjectFromStream_mono [OF z, of j] z np y y' yd dc True XStream inr Suc.prems
            show ?thesis by (auto split: option.splits error.splits)
          qed
        qed
      qed
    qed
  qed
qed

lemma GetArray_mono: "GetArray n L p r = Some x \<Longrightarrow> GetArray (n + j) L p r = Some x"
proof -
  assume a: "GetArray n L p r = Some x"
  then obtain y where y: "Get n L p r = Some y"
    by (cases "Get n L p r") (auto simp: GetArray_def)
  from Get_mono [OF y, of j] y a show ?thesis by (simp add: GetArray_def)
qed

section \<open>Claims\<close>

text \<open>
  C3 (name round-trip).  The claim: parsing a wire-encoded Name and re-encoding the
  result with encodeName gives the original bytes.  The serialiser formats an escaped
  byte with \<open>%2X\<close>, which pads with a blank instead of a zero, so a byte below 0x10 does
  not survive: the name \<open>/a#09b\<close> (an escaped tab) is parsed to the three bytes a, tab, b
  and written back as \<open>/a# 9b\<close>.
\<close>

theorem name_roundtrip_broken_below_0x10:
  "readObjectFrom 8 stubLib ''/a#09b '' = Some (Inr (OName [CHR ''a'', CHR 0x09, CHR ''b''], 6))
   \<and> encodeName [CHR ''a'', CHR 0x09, CHR ''b''] = ''/a# 9b''
   \<and> encodeName [CHR ''a'', CHR 0x09, CHR ''b''] \<noteq> take 6 ''/a#09b ''"
  by code_simp

text \<open>
  C7 (duplicate keys).  The claim: a dictionary in which a key appears twice is a parse
  error.  stDict stores every pair with \<open>d[key] = obj\<close> and never looks for the key, so
  the input below is accepted.
\<close>

theorem dict_duplicate_key_counterexample:
  "readObjectFrom 12 stubLib ''<</Type/Page/Type/Font>>'' =
     Some (Inr (ODict [(''Type'', OName ''Font'')], 24))"
  by code_simp

text \<open>
  C7 as amended: a dictionary in which a key appears twice is accepted, and the Dict
  returned holds for that key the value read last.  Here for every key made of regular
  characters (without \<open>#\<close>), with the values 1 and 2, and for any bound on the parser's
  work from the length of the key plus 6.
\<close>

theorem dict_duplicate_key_last_wins:
  assumes k: "\<forall>c\<in>set k. isRegularChar c \<and> c \<noteq> CHR ''#''"
  shows "readObjectFrom (length k + 6 + j) L (''<</'' @ k @ '' 1/'' @ k @ '' 2>>'') =
     Some (Inr (ODict [(k, OInt 2)], 2 * int (length k) + 10))"
proof -
  define M where "M = Suc (Suc (Suc (Suc (length k + j))))"
  have fuel: "length k + 6 + j = Suc (Suc M)" by (simp add: M_def)
  have M3: "M = Suc (Suc (Suc (Suc (length k + j))))" by (simp add: M_def)
  note loop = dict_loop_dup [OF k M3, of _ "Suc (length k + j)" L, folded M_def]
  have "run (Suc (Suc M)) L StStart
          \<lparr>pby = ''<</'' @ k @ '' 1/'' @ k @ '' 2>>'', pmore = None, paccum = [], pparens = 0,
             poffset = 0\<rparr> =
        Some (Inr (ODict [(k, OInt 2)]),
          \<lparr>pby = [], pmore = None, paccum = [], pparens = 0,
             poffset = 2 * int (length k) + 10\<rparr>)"
    by (simp add: dispatch_def stStart_def p_extend_enough skip_def stDict_def
        readObject_def [symmetric] loop stDictTail_def skipWhitespace_eof)
  then show ?thesis
    by (simp add: readObjectFrom_def readObject_def readObjectWith_def fuel)
qed

theorem dict_duplicate_key_last_wins_witness:
  "list_all (\<lambda>c. isRegularChar c \<and> c \<noteq> CHR ''#'') ''Kids''
   \<and> readObjectFrom 10 stubLib ''<</Kids 1/Kids 2>>'' = Some (Inr (ODict [(''Kids'', OInt 2)], 18))"
proof -
  have h: "\<forall>c\<in>set ''Kids''. isRegularChar c \<and> c \<noteq> CHR ''#''"
    by (simp add: isRegularChar_def nonRegularChars_def)
  from dict_duplicate_key_last_wins [OF h, of 0 stubLib] h show ?thesis
    by (simp add: list_all_iff)
qed

section \<open>Facts about Decompress and Get\<close>

lemma applyFilters_deletes:
  "applyFilters L fs parms r s = (None, s') \<Longrightarrow> map_of (Dict s') ''Filter'' = None"
  by (induction fs arbitrary: parms s)
     (auto simp: AList.delete_conv' split: if_splits prod.splits option.splits)

lemma Decompress_nil:
  "dictGet (Dict s) ''Filter'' = ONull \<Longrightarrow> Decompress L s r = (None, s)"
  by (simp add: Decompress_def)

lemma readObjectAt_updates:
  "readObjectAt n L (UpdateObject p ref obj) off = readObjectAt n L p off"
  by (simp add: readObjectAt_def UpdateObject_def)

lemma shareDict_updates:
  "shareDict (UpdateObject p ref obj) k str = UpdateObject (shareDict p k str) ref obj"
  by (simp add: shareDict_def UpdateObject_def split: xrefSlot.splits Object.splits)

lemma xref_UpdateObject: "xref (UpdateObject p ref obj) = xref p"
  by (simp add: UpdateObject_def)

lemma Get_UpdateObject:
  "Get n L (UpdateObject p ref obj) r =
     map_option (\<lambda>(res, q). (res, UpdateObject q ref obj)) (Get n L p r)"
proof (induction n arbitrary: p r)
  case 0
  show ?case by simp
next
  case (Suc n)
  show ?case
    by (simp add: Suc.IH readObjectAt_updates shareDict_updates xref_UpdateObject
        split: xrefSlot.splits option.splits sum.splits prod.splits Object.splits error.splits)
qed

section \<open>Claims about Get, UpdateObject and Decompress\<close>

text \<open>
  C1 (updates visible to Get).  The claim: after UpdateObject(ref, obj) on a Direct or
  InObjectStream slot, Get(ref) returns obj.  Get never reads \<open>p.updates\<close>: in the
  document below, object 1 is the string \<open>old\<close> in the file; after it has been updated
  to \<open>new\<close>, Get still returns \<open>old\<close>.
\<close>

theorem Get_after_UpdateObject_counterexample:
  "xref pdfOne ! 1 = XDirect 0 0 ONull
   \<and> Get 20 stubLib (UpdateObject pdfOne \<lparr>Number = 1, Generation = 0\<rparr> (OString ''new''))
        \<lparr>Number = 1, Generation = 0\<rparr> =
      Some (Inr (OString ''old''),
            UpdateObject pdfOne \<lparr>Number = 1, Generation = 0\<rparr> (OString ''new''))"
  by code_simp

text \<open>
  C1 as amended: UpdateObject(ref, obj) records obj in the dirty set under ref and
  leaves the cross-reference table and the file as they are; Get does not consult the
  dirty set, so every Get returns after the update what it returned before it.
\<close>

theorem UpdateObject_recorded_not_read:
  "map_of (updates (UpdateObject p ref obj)) ref = Some obj
   \<and> xref (UpdateObject p ref obj) = xref p
   \<and> fh (UpdateObject p ref obj) = fh p
   \<and> Get n L (UpdateObject p ref obj) r =
       map_option (\<lambda>(res, q). (res, UpdateObject q ref obj)) (Get n L p r)"
  by (simp add: Get_UpdateObject) (simp add: UpdateObject_def AList.update_conv')

text \<open>
  C4 (the cache of a Direct slot).  The claim: after a successful Get on an uncached
  Direct slot the parsed object is stored in the slot's cache.  In Get the type switch
  binds \<open>xe\<close> to a copy of the xrefDirect value, and \<open>xe.cache = obj\<close> changes the copy:
  after a successful Get the slot still has an empty cache, and the next Get parses the
  file again.
\<close>

theorem Get_does_not_cache:
  assumes "Get n L p r = Some (Inr obj, p')"
    and "xref p ! nat (Number r) = XDirect off gen ONull"
  shows "xref p' ! nat (Number r) = XDirect off gen ONull \<and> Get n L p' r = Some (Inr obj, p')"
  using assms
  by (cases n) (auto split: if_splits option.splits sum.splits)

theorem Get_does_not_cache_witness:
  "Get 20 stubLib pdfOne \<lparr>Number = 1, Generation = 0\<rparr> = Some (Inr (OString ''old''), pdfOne)
   \<and> xref pdfOne ! 1 = XDirect 0 0 ONull"
proof -
  have g: "Get 20 stubLib pdfOne \<lparr>Number = 1, Generation = 0\<rparr> = Some (Inr (OString ''old''), pdfOne)"
    by code_simp
  have x: "xref pdfOne ! nat (Number \<lparr>Number = 1, Generation = 0\<rparr>) = XDirect 0 0 ONull"
    by (simp add: pdfOne_def)
  from Get_does_not_cache [OF g x] g show ?thesis by simp
qed

text \<open>
  C6 (a failed decompression in Get).  The claim: when decompressing the containing
  object stream fails, Get returns an error.  Get calls \<open>str.Decompress(0)\<close> and drops
  its result.  In the document below the object stream names the filter LZWDecode, for
  which Decompress returns an error; Get goes on with the undecoded data and returns
  object 12 without an error.
\<close>

theorem Get_drops_Decompress_error:
  "Get 40 stubLib pdfLZW \<lparr>Number = 9, Generation = 0\<rparr> =
     Some (Inr (OStream [(''Type'', OName ''ObjStm''), (''N'', OInt 1), (''First'', OInt 5),
                         (''Filter'', OName ''LZWDecode''), (''Length'', OInt 9)] ''12 0 (hi)''),
           pdfLZW)
   \<and> fst (Decompress stubLib
            \<lparr>Dict = [(''Type'', OName ''ObjStm''), (''N'', OInt 1), (''First'', OInt 5),
                     (''Filter'', OName ''LZWDecode''), (''Length'', OInt 9)],
               Data = ''12 0 (hi)''\<rparr> 0) =
       Some (Err ''stream /Filter encoding /%s is not supported'')
   \<and> Get 40 stubLib pdfLZW \<lparr>Number = 12, Generation = 0\<rparr> = Some (Inr (OString ''hi''), pdfLZW)"
  by code_simp

text \<open>
  C8 (Decompress is idempotent).  The claim: after a successful Decompress the key
  \<open>/Filter\<close> is absent from the Dict, and a second Decompress succeeds and changes
  nothing.  The first part fails for a stream whose Dict has \<open>/Filter null\<close>: the type
  switch takes its nil case, Decompress returns nil at once, and the key stays.
\<close>

theorem Decompress_null_Filter_counterexample:
  "readObjectFrom 30 stubLib ''<</Length 3/Filter null>> stream\<newline>abc\<newline>endstream endobj '' =
     Some (Inr (OStream [(''Length'', OInt 3), (''Filter'', ONull)] ''abc'', 46))
   \<and> Decompress stubLib \<lparr>Dict = [(''Length'', OInt 3), (''Filter'', ONull)], Data = ''abc''\<rparr> 0 =
       (None, \<lparr>Dict = [(''Length'', OInt 3), (''Filter'', ONull)], Data = ''abc''\<rparr>)
   \<and> map_of [(''Length'', OInt 3), (''Filter'', ONull)] ''Filter'' = Some ONull"
  by code_simp

text \<open>
  C8 as amended: if Decompress(r) succeeds then afterwards the key \<open>/Filter\<close> is absent
  from the Dict, or it was present with the null object and the stream is unchanged;
  and a second Decompress(r) succeeds and leaves the payload and the Dict unchanged.
\<close>

theorem Decompress_idempotent:
  assumes "Decompress L s r = (None, s')"
  shows "(map_of (Dict s') ''Filter'' = None \<or> (map_of (Dict s) ''Filter'' = Some ONull \<and> s' = s))
         \<and> Decompress L s' r = (None, s')"
proof -
  have 1: "map_of (Dict s') ''Filter'' = None \<or> (map_of (Dict s) ''Filter'' = Some ONull \<and> s' = s)"
    using assms
    by (auto simp: Decompress_def dictGet_def simp del: applyFilters.simps
        dest: applyFilters_deletes split: option.splits Object.splits if_splits)
  then have "dictGet (Dict s') ''Filter'' = ONull" by (auto simp: dictGet_def)
  then show ?thesis using 1 by (simp add: Decompress_nil)
qed

theorem Decompress_idempotent_witness:
  "Decompress exampleLib
     \<lparr>Dict = [(''Type'', OName ''ObjStm''), (''Filter'', OName ''FlateDecode'')],
        Data = objStmDeflated\<rparr> 0 =
     (None, \<lparr>Dict = [(''Type'', OName ''ObjStm'')], Data = objStmPlain\<rparr>)
   \<and> map_of (Dict \<lparr>Dict = [(''Type'', OName ''ObjStm'')], Data = objStmPlain\<rparr>) ''Filter'' = None
   \<and> Decompress exampleLib \<lparr>Dict = [(''Type'', OName ''ObjStm'')], Data = objStmPlain\<rparr> 0 =
       (None, \<lparr>Dict = [(''Type'', OName ''ObjStm'')], Data = objStmPlain\<rparr>)"
proof -
  have h: "Decompress exampleLib
     \<lparr>Dict = [(''Type'', OName ''ObjStm''), (''Filter'', OName ''FlateDecode'')],
        Data = objStmDeflated\<rparr> 0 =
     (None, \<lparr>Dict = [(''Type'', OName ''ObjStm'')], Data = objStmPlain\<rparr>)"
    by code_simp
  from Decompress_idempotent [OF h] h show ?thesis by simp
qed

text \<open>
  C9 (the error cases of Get, and scenario S3).  Get returns an error when the object
  number is outside [1, length of the table), when the slot is on the free list, when a
  Direct slot has another generation than the one asked for, and when the slot is in an
  object stream and the generation asked for is not zero.  In scenario S3, Get for
  (12, 0) returns the object parsed from the stream, and Get for (12, 1) returns the
  error about the generation.  The error cases hold for every positive bound, the
  scenario for every bound from 40.
\<close>

theorem Get_rejects:
  "(Number r < 1 \<or> int (length (xref p)) \<le> Number r \<longrightarrow>
      Get (Suc n) L p r =
        Some (Inl (Err ''object number %d is out of range for document (max %d)''), p))
   \<and> (1 \<le> Number r \<and> Number r < int (length (xref p)) \<longrightarrow>
        (\<forall>nxt gen. xref p ! nat (Number r) = XFree nxt gen \<longrightarrow>
           Get (Suc n) L p r = Some (Inl (Err ''object number %d is on the free list''), p))
      \<and> (\<forall>off gen cache. xref p ! nat (Number r) = XDirect off gen cache \<and> gen \<noteq> Generation r \<longrightarrow>
           Get (Suc n) L p r =
             Some (Inl (Err ''object number %d has generation %d but %d was requested''), p))
      \<and> (\<forall>stream index cache.
            xref p ! nat (Number r) = XStream stream index cache \<and> Generation r \<noteq> 0 \<longrightarrow>
           Get (Suc n) L p r =
             Some (Inl (Err ''object number %d is in an object stream but has a nonzero generation number''), p)))
   \<and> Get (40 + j) exampleLib pdfS3 \<lparr>Number = 12, Generation = 0\<rparr> =
       Some (Inr (OString ''d12''), pdfS3)
   \<and> Get (40 + j) exampleLib pdfS3 \<lparr>Number = 12, Generation = 1\<rparr> =
       Some (Inl (Err ''object number %d is in an object stream but has a nonzero generation number''), pdfS3)"
proof -
  have "Get 40 exampleLib pdfS3 \<lparr>Number = 12, Generation = 0\<rparr> = Some (Inr (OString ''d12''), pdfS3)"
    by code_simp
  then have a: "Get (40 + j) exampleLib pdfS3 \<lparr>Number = 12, Generation = 0\<rparr> =
       Some (Inr (OString ''d12''), pdfS3)"
    by (rule Get_mono)
  have "Get 40 exampleLib pdfS3 \<lparr>Number = 12, Generation = 1\<rparr> =
       Some (Inl (Err ''object number %d is in an object stream but has a nonzero generation number''), pdfS3)"
    by code_simp
  then have b: "Get (40 + j) exampleLib pdfS3 \<lparr>Number = 12, Generation = 1\<rparr> =
       Some (Inl (Err ''object number %d is in an object stream but has a nonzero generation number''), pdfS3)"
    by (rule Get_mono)
  show ?thesis unfolding a b by auto
qed

theorem Get_rejects_witness:
  "Get (Suc 0) exampleLib pdfS3 \<lparr>Number = 13, Generation = 0\<rparr> =
     Some (Inl (Err ''object number %d is out of range for document (max %d)''), pdfS3)
   \<and> Get (Suc 0) exampleLib pdfS3 \<lparr>Number = 0, Generation = 0\<rparr> =
     Some (Inl (Err ''object number %d is out of range for document (max %d)''), pdfS3)
   \<and> Get (Suc 0) exampleLib pdfS3 \<lparr>Number = 8, Generation = 1\<rparr> =
     Some (Inl (Err ''object number %d is on the free list''), pdfS3)
   \<and> Get (Suc 0) exampleLib pdfS3 \<lparr>Number = 9, Generation = 1\<rparr> =
     Some (Inl (Err ''object number %d has generation %d but %d was requested''), pdfS3)
   \<and> Get (Suc 0) exampleLib pdfS3 \<lparr>Number = 12, Generation = 1\<rparr> =
     Some (Inl (Err ''object number %d is in an object stream but has a nonzero generation number''), pdfS3)"
proof -
  note R = Get_rejects [where p = pdfS3 and n = 0 and L = exampleLib and j = 0]
  have x: "xref pdfS3 =
      [XFree 0 65535, XObject ONull, XObject ONull, XObject ONull, XObject ONull, XObject ONull,
       XObject ONull, XObject ONull, XFree 0 1, XDirect 0 0 ONull, XObject ONull, XObject ONull,
       XStream 9 3 ONull]"
    by (simp add: pdfS3_def numeral_eq_Suc)
  have 1: "Get (Suc 0) exampleLib pdfS3 \<lparr>Number = 13, Generation = 0\<rparr> =
     Some (Inl (Err ''object number %d is out of range for document (max %d)''), pdfS3)"
    using R [of "\<lparr>Number = 13, Generation = 0\<rparr>"] by (simp add: x)
  have 2: "Get (Suc 0) exampleLib pdfS3 \<lparr>Number = 0, Generation = 0\<rparr> =
     Some (Inl (Err ''object number %d is out of range for document (max %d)''), pdfS3)"
    using R [of "\<lparr>Number = 0, Generation = 0\<rparr>"] by (simp add: x)
  have 3: "Get (Suc 0) exampleLib pdfS3 \<lparr>Number = 8, Generation = 1\<rparr> =
     Some (Inl (Err ''object number %d is on the free list''), pdfS3)"
    using R [of "\<lparr>Number = 8, Generation = 1\<rparr>"] by (simp add: x)
  have 4: "Get (Suc 0) exampleLib pdfS3 \<lparr>Number = 9, Generation = 1\<rparr> =
     Some (Inl (Err ''object number %d has generation %d but %d was requested''), pdfS3)"
    using R [of "\<lparr>Number = 9, Generation = 1\<rparr>"] by (simp add: x)
  have 5: "Get (Suc 0) exampleLib pdfS3 \<lparr>Number = 12, Generation = 1\<rparr> =
     Some (Inl (Err ''object number %d is in an object stream but has a nonzero generation number''), pdfS3)"
    using R [of "\<lparr>Number = 12, Generation = 1\<rparr>"] by (simp add: x)
  from 1 2 3 4 5 show ?thesis by simp
qed

section \<open>Facts about choice fields\<close>

text \<open>
  setChoice looks for the list of options under the key \<open>Opts\<close>, not under \<open>/Opt\<close>.  A
  field that has its list under \<open>/Opt\<close> only is treated as a field without a list: in the
  form below, \<open>Plans\<close> is one of the options of the field Section, and SetField stores it
  and returns the error that the options are not specified.
\<close>

lemma SetField_Opt_only:
  "Get 40 stubLib pdfFormOpt \<lparr>Number = 1, Generation = 0\<rparr> =
     Some (Inr (ODict [(''FT'', OName ''Ch''), (''T'', OString ''Section''), (''Ff'', OInt 0),
                       (''V'', OString ''Ops''),
                       (''Opt'', OArray [OString ''Ops'', OString ''Plans''])]), pdfFormOpt)
   \<and> SetField 40 stubLib noSetters pdfFormOpt ''Section'' ''Plans'' 0 =
       Some (Some (Err ''field[Opts] is not specified''),
             UpdateObject pdfFormOpt \<lparr>Number = 1, Generation = 0\<rparr>
               (ODict [(''FT'', OName ''Ch''), (''T'', OString ''Section''), (''Ff'', OInt 0),
                       (''V'', OString ''Plans''),
                       (''Opt'', OArray [OString ''Ops'', OString ''Plans''])]))"
  by code_simp

section \<open>Claims about choice fields\<close>

text \<open>
  C2 (setting a choice field that is not editable).  The claim: the value is stored in
  \<open>/V\<close>; with a list of options the call fails iff the value is not among them, and
  without one it succeeds.  For the field Section of the form above, which has no list
  of options, SetField stores the value and returns the error that the options are not
  specified.
\<close>

theorem SetField_choice_counterexample:
  "Get 40 stubLib pdfForm \<lparr>Number = 2, Generation = 0\<rparr> =
     Some (Inr (ODict [(''FT'', OName ''Ch''), (''T'', OString ''Section''), (''Ff'', OInt 0),
                       (''V'', OString ''Ops'')]), pdfForm)
   \<and> SetField 40 stubLib noSetters pdfForm ''Section'' ''Plans'' 0 =
       Some (Some (Err ''field[Opts] is not specified''),
             UpdateObject pdfForm \<lparr>Number = 2, Generation = 0\<rparr>
               (ODict [(''FT'', OName ''Ch''), (''T'', OString ''Section''), (''Ff'', OInt 0),
                       (''V'', OString ''Plans'')]))"
  by code_simp

text \<open>
  C2 as amended, for a choice field whose \<open>/Ff\<close> is an integer with none of the bits
  0x60000 set.  If \<open>/V\<close> is already the value, setChoice succeeds and changes nothing.
  Otherwise it sets \<open>/V\<close> to the value and registers the field as updated, and then:
  for a field without a list of options (none under \<open>/Opt\<close> and none under the key
  \<open>Opts\<close> that the code reads) it fails with the error that the options are not
  specified; for a field that has the same array of options under \<open>/Opt\<close> and under
  \<open>Opts\<close> it fails iff no element of the array is a string equal to the value.  Nothing
  is said about a field that has a list under one of the two keys only (see
  SetField_Opt_only for what the code does there).
\<close>

theorem setChoice_not_editable:
  assumes "dictGet field ''Ff'' = OInt ff" and "ff AND 0x60000 = 0"
  shows "(dictGet field ''V'' = OString val \<longrightarrow>
            setChoice n L pdf fieldref field val = Some (None, pdf, field))
       \<and> (dictGet field ''V'' \<noteq> OString val \<longrightarrow>
            (dictGet field ''Opt'' = ONull \<and> dictGet field ''Opts'' = ONull \<longrightarrow>
               setChoice n L pdf fieldref field val =
                 Some (Some (Err ''field[Opts] is not specified''),
                       UpdateObject pdf fieldref (ODict (AList.update ''V'' (OString val) field)),
                       AList.update ''V'' (OString val) field))
          \<and> (\<forall>opts. dictGet field ''Opt'' = OArray opts \<and> dictGet field ''Opts'' = OArray opts \<longrightarrow>
               setChoice n L pdf fieldref field val =
                 Some (if OString val \<in> set opts then None
                       else Some (Err ''value %q is not valid for field %q''),
                       UpdateObject pdf fieldref (ODict (AList.update ''V'' (OString val) field)),
                       AList.update ''V'' (OString val) field)))
       \<and> dictGet (AList.update ''V'' (OString val) field) ''V'' = OString val"
  using assms
  by (auto simp: setChoice_def Let_def dictGet_def AList.update_conv' checkOpts_def
      split: Object.splits option.splits)

theorem setChoice_not_editable_witness:
  "setChoice 0 stubLib pdfForm \<lparr>Number = 2, Generation = 0\<rparr>
     [(''FT'', OName ''Ch''), (''T'', OString ''Section''), (''Ff'', OInt 0), (''V'', OString ''Ops'')]
     ''Ops'' =
     Some (None, pdfForm,
       [(''FT'', OName ''Ch''), (''T'', OString ''Section''), (''Ff'', OInt 0), (''V'', OString ''Ops'')])
   \<and> setChoice 0 stubLib pdfForm \<lparr>Number = 2, Generation = 0\<rparr>
     [(''FT'', OName ''Ch''), (''T'', OString ''Section''), (''Ff'', OInt 0), (''V'', OString ''Ops'')]
     ''Plans'' =
     Some (Some (Err ''field[Opts] is not specified''),
       UpdateObject pdfForm \<lparr>Number = 2, Generation = 0\<rparr>
         (ODict [(''FT'', OName ''Ch''), (''T'', OString ''Section''), (''Ff'', OInt 0),
                 (''V'', OString ''Plans'')]),
       [(''FT'', OName ''Ch''), (''T'', OString ''Section''), (''Ff'', OInt 0), (''V'', OString ''Plans'')])
   \<and> setChoice 0 stubLib pdfForm \<lparr>Number = 2, Generation = 0\<rparr>
     [(''Ff'', OInt 0), (''V'', OString ''Ops''),
      (''Opt'', OArray [OString ''Ops'', OString ''Plans'']),
      (''Opts'', OArray [OString ''Ops'', OString ''Plans''])]
     ''Plans'' =
     Some (None,
       UpdateObject pdfForm \<lparr>Number = 2, Generation = 0\<rparr>
         (ODict [(''Ff'', OInt 0), (''V'', OString ''Plans''),
                 (''Opt'', OArray [OString ''Ops'', OString ''Plans'']),
                 (''Opts'', OArray [OString ''Ops'', OString ''Plans''])]),
       [(''Ff'', OInt 0), (''V'', OString ''Plans''),
        (''Opt'', OArray [OString ''Ops'', OString ''Plans'']),
        (''Opts'', OArray [OString ''Ops'', OString ''Plans''])])
   \<and> setChoice 0 stubLib pdfForm \<lparr>Number = 2, Generation = 0\<rparr>
     [(''Ff'', OInt 0), (''V'', OString ''Ops''),
      (''Opt'', OArray [OString ''Ops'', OString ''Plans'']),
      (''Opts'', OArray [OString ''Ops'', OString ''Plans''])]
     ''Logistics'' =
     Some (Some (Err ''value %q is not valid for field %q''),
       UpdateObject pdfForm \<lparr>Number = 2, Generation = 0\<rparr>
         (ODict [(''Ff'', OInt 0), (''V'', OString ''Logistics''),
                 (''Opt'', OArray [OString ''Ops'', OString ''Plans'']),
                 (''Opts'', OArray [OString ''Ops'', OString ''Plans''])]),
       [(''Ff'', OInt 0), (''V'', OString ''Logistics''),
        (''Opt'', OArray [OString ''Ops'', OString ''Plans'']),
        (''Opts'', OArray [OString ''Ops'', OString ''Plans''])])"
proof -
  let ?f = "[(''FT'', OName ''Ch''), (''T'', OString ''Section''), (''Ff'', OInt 0),
             (''V'', OString ''Ops'')]"
  let ?g = "[(''Ff'', OInt 0), (''V'', OString ''Ops''),
             (''Opt'', OArray [OString ''Ops'', OString ''Plans'']),
             (''Opts'', OArray [OString ''Ops'', OString ''Plans''])]"
  have f: "dictGet ?f ''Ff'' = OInt 0" "(0::int) AND 0x60000 = 0"
    by (simp_all add: dictGet_def)
  have g: "dictGet ?g ''Ff'' = OInt 0"
    by (simp add: dictGet_def)
  note F = setChoice_not_editable [OF f, where n = 0 and L = stubLib and pdf = pdfForm
      and fieldref = "\<lparr>Number = 2, Generation = 0\<rparr>"]
  note G = setChoice_not_editable [OF g f(2), where n = 0 and L = stubLib and pdf = pdfForm
      and fieldref = "\<lparr>Number = 2, Generation = 0\<rparr>"]
  have 1: "setChoice 0 stubLib pdfForm \<lparr>Number = 2, Generation = 0\<rparr> ?f ''Ops'' =
      Some (None, pdfForm, ?f)"
    using F [of "''Ops''"] by (simp add: dictGet_def)
  have 2: "setChoice 0 stubLib pdfForm \<lparr>Number = 2, Generation = 0\<rparr> ?f ''Plans'' =
      Some (Some (Err ''field[Opts] is not specified''),
        UpdateObject pdfForm \<lparr>Number = 2, Generation = 0\<rparr>
          (ODict (AList.update ''V'' (OString ''Plans'') ?f)),
        AList.update ''V'' (OString ''Plans'') ?f)"
    using F [of "''Plans''"] by (simp add: dictGet_def)
  have 3: "setChoice 0 stubLib pdfForm \<lparr>Number = 2, Generation = 0\<rparr> ?g ''Plans'' =
      Some (None,
        UpdateObject pdfForm \<lparr>Number = 2, Generation = 0\<rparr>
          (ODict (AList.update ''V'' (OString ''Plans'') ?g)),
        AList.update ''V'' (OString ''Plans'') ?g)"
    using G [of "''Plans''"] by (simp add: dictGet_def)
  have 4: "setChoice 0 stubLib pdfForm \<lparr>Number = 2, Generation = 0\<rparr> ?g ''Logistics'' =
      Some (Some (Err ''value %q is not valid for field %q''),
        UpdateObject pdfForm \<lparr>Number = 2, Generation = 0\<rparr>
          (ODict (AList.update ''V'' (OString ''Logistics'') ?g)),
        AList.update ''V'' (OString ''Logistics'') ?g)"
    using G [of "''Logistics''"] by (simp add: dictGet_def)
  from 1 2 3 4 show ?thesis by simp
qed

text \<open>
  C10 (a choice field without \<open>/Ff\<close>).  For a choice field whose \<open>/Ff\<close> entry is
  missing or is not an integer, and whose \<open>/V\<close> is not yet the value, setChoice panics
  in the type assertion \<open>field["Ff"].(int)\<close>; by then it has stored the value and
  registered the update.  It does not return an error.
\<close>

theorem setChoice_panics_without_Ff:
  assumes "dictGet field ''V'' \<noteq> OString val" and "\<forall>ff. dictGet field ''Ff'' \<noteq> OInt ff"
  shows "setChoice n L pdf fieldref field val =
     Some (Some (Panic ''interface conversion: interface {} is not int''),
           UpdateObject pdf fieldref (ODict (AList.update ''V'' (OString val) field)),
           AList.update ''V'' (OString val) field)"
  using assms
  by (auto simp: setChoice_def Let_def dictGet_def AList.update_conv'
      split: Object.splits option.splits)

theorem setChoice_panics_without_Ff_witness:
  "Get 40 stubLib pdfForm \<lparr>Number = 1, Generation = 0\<rparr> =
     Some (Inr (ODict [(''FT'', OName ''Ch''), (''T'', OString ''Position''),
                       (''V'', OString ''Chief''),
                       (''Opt'', OArray [OString ''Chief'', OString ''Unit''])]), pdfForm)
   \<and> setChoice 40 stubLib pdfForm \<lparr>Number = 1, Generation = 0\<rparr>
       [(''FT'', OName ''Ch''), (''T'', OString ''Position''), (''V'', OString ''Chief''),
        (''Opt'', OArray [OString ''Chief'', OString ''Unit''])] ''Unit'' =
       Some (Some (Panic ''interface conversion: interface {} is not int''),
         UpdateObject pdfForm \<lparr>Number = 1, Generation = 0\<rparr>
           (ODict [(''FT'', OName ''Ch''), (''T'', OString ''Position''), (''V'', OString ''Unit''),
                   (''Opt'', OArray [OString ''Chief'', OString ''Unit''])]),
         [(''FT'', OName ''Ch''), (''T'', OString ''Position''), (''V'', OString ''Unit''),
          (''Opt'', OArray [OString ''Chief'', OString ''Unit''])])
   \<and> SetField 40 stubLib noSetters pdfForm ''Position'' ''Unit'' 0 =
       Some (Some (Panic ''interface conversion: interface {} is not int''),
         UpdateObject pdfForm \<lparr>Number = 1, Generation = 0\<rparr>
           (ODict [(''FT'', OName ''Ch''), (''T'', OString ''Position''), (''V'', OString ''Unit''),
                   (''Opt'', OArray [OString ''Chief'', OString ''Unit''])]))"
proof -
  let ?f = "[(''FT'', OName ''Ch''), (''T'', OString ''Position''), (''V'', OString ''Chief''),
             (''Opt'', OArray [OString ''Chief'', OString ''Unit''])]"
  have v: "dictGet ?f ''V'' \<noteq> OString ''Unit''" by (simp add: dictGet_def)
  have ff: "\<forall>ff. dictGet ?f ''Ff'' \<noteq> OInt ff" by (simp add: dictGet_def)
  have g: "Get 40 stubLib pdfForm \<lparr>Number = 1, Generation = 0\<rparr> = Some (Inr (ODict ?f), pdfForm)"
    by code_simp
  have s: "SetField 40 stubLib noSetters pdfForm ''Position'' ''Unit'' 0 =
       Some (Some (Panic ''interface conversion: interface {} is not int''),
         UpdateObject pdfForm \<lparr>Number = 1, Generation = 0\<rparr>
           (ODict [(''FT'', OName ''Ch''), (''T'', OString ''Position''), (''V'', OString ''Unit''),
                   (''Opt'', OArray [OString ''Chief'', OString ''Unit''])]))"
    by code_simp
  from setChoice_panics_without_Ff [OF v ff, of 40 stubLib pdfForm "\<lparr>Number = 1, Generation = 0\<rparr>"]
    g s
  show ?thesis by simp
qed

section \<open>The merged cross-reference table\<close>

lemma keeps_refl: "keeps xs xs"
  by (simp add: keeps_def)

lemma keeps_trans: "keeps xs ys \<Longrightarrow> keeps ys zs \<Longrightarrow> keeps xs zs"
  by (auto simp: keeps_def)

lemma keeps_growTo: "keeps xs (growTo xs m)"
  by (auto simp: keeps_def growTo_def nth_append)

lemma keeps_fill:
  assumes "xs ! i = XObject ONull"
  shows "keeps xs (xs[i := v])"
proof -
  have "xs[i := v] ! j = xs ! j" if "xs ! j \<noteq> XObject ONull" for j
  proof -
    from that assms have "j \<noteq> i" by auto
    then show ?thesis by simp
  qed
  then show ?thesis by (simp add: keeps_def)
qed

lemma tableEntries_keeps:
  "tableEntries k p j addr = (e, a, p') \<Longrightarrow> keeps (xref p) (xref p')"
proof (induction k arbitrary: p j addr)
  case 0
  then show ?case by (simp add: keeps_refl)
next
  case (Suc k)
  show ?case
  proof (cases "j < 0 \<or> j \<ge> int (length (xref p))")
    case True
    with Suc.prems show ?thesis by (auto simp: keeps_refl)
  next
    case inr: False
    show ?thesis
    proof (cases "xref p ! nat j \<noteq> XObject ONull")
      case True
      with inr Suc.prems have "tableEntries k p (j + 1) (addr + 20) = (e, a, p')" by simp
      then show ?thesis by (rule Suc.IH)
    next
      case nil: False
      show ?thesis
      proof (cases "ReadAt p 20 addr")
        case None
        with inr nil Suc.prems show ?thesis by (auto simp: keeps_refl)
      next
        case (Some line)
        let ?q = "\<lambda>v. p\<lparr>xref := (xref p)[nat j := v]\<rparr>"
        have fill: "keeps (xref p) (xref (?q v))" for v
          using nil by (simp add: keeps_fill)
        from inr nil Some Suc.prems
        have "p' = p \<or> (\<exists>v. tableEntries k (?q v) (j + 1) (addr + 20) = (e, a, p'))"
          by (auto split: if_splits prod.splits option.splits)
        then show ?thesis
        proof
          assume "p' = p"
          then show ?thesis by (simp add: keeps_refl)
        next
          assume "\<exists>v. tableEntries k (?q v) (j + 1) (addr + 20) = (e, a, p')"
          then obtain v where "tableEntries k (?q v) (j + 1) (addr + 20) = (e, a, p')" ..
          from Suc.IH [OF this] fill [of v] show ?thesis by (rule keeps_trans [rotated])
        qed
      qed
    qed
  qed
qed

lemma readXRefTableSection_keeps:
  "readXRefTableSection L p addr line = (r, p') \<Longrightarrow> keeps (xref p) (xref p')"
  by (auto simp: readXRefTableSection_def Let_def keeps_refl
      split: if_splits option.splits prod.splits
      dest!: tableEntries_keeps intro: keeps_trans [OF keeps_growTo])

lemma xrefStreamRun_keeps:
  "xrefStreamRun k i w dat xs = (e, d, ys) \<Longrightarrow> keeps xs ys"
proof (induction k arbitrary: i dat xs)
  case 0
  then show ?case by (simp add: keeps_refl)
next
  case (Suc k)
  from Suc.prems
  have "ys = xs \<or> (\<exists>dat' zs. keeps xs zs \<and> xrefStreamRun k (i + 1) w dat' zs = (e, d, ys))"
    by (auto simp: keeps_refl keeps_fill split: sum.splits if_splits prod.splits)
  then show ?case
    by (auto simp: keeps_refl dest: Suc.IH intro: keeps_trans)
qed

lemma xrefStreamWalk_keeps:
  "xrefStreamWalk ix w dat xs = (e, d, ys) \<Longrightarrow> keeps xs ys"
proof (induction ix w dat xs rule: xrefStreamWalk.induct)
  case (1 w dat xs)
  then show ?case by (simp add: keeps_refl)
next
  case (2 s w dat xs)
  then show ?case by (simp add: keeps_refl)
next
  case (3 s cnt ix w dat xs)
  show ?case
  proof (cases "xrefStreamRun (nat cnt) s w dat xs")
    case (fields e1 d1 zs)
    then have k1: "keeps xs zs" by (rule xrefStreamRun_keeps)
    show ?thesis
    proof (cases e1)
      case None
      with fields "3.prems" have "xrefStreamWalk ix w d1 zs = (e, d, ys)" by simp
      from "3.IH" [OF fields [symmetric] None refl this] k1 show ?thesis
        by (rule keeps_trans [rotated])
    next
      case (Some x)
      with fields "3.prems" k1 show ?thesis by simp
    qed
  qed
qed

lemma xref_mergeInfo: "xref (mergeInfo p key val) = xref p"
  by (simp add: mergeInfo_def)

lemma xrefStreamKey_xref:
  "xrefStreamKey kv (a, p) = (e, a', p') \<Longrightarrow> xref p' = xref p"
  by (cases kv)
     (auto simp: xrefStreamKey_def xref_mergeInfo split: if_splits Object.splits option.splits)

lemma xrefStreamKeys_xref:
  "xrefStreamKeys d (a, p) = (e, a', p') \<Longrightarrow> xref p' = xref p"
proof (induction d arbitrary: a p)
  case Nil
  then show ?case by simp
next
  case (Cons kv d)
  obtain e1 a1 p1 where k: "xrefStreamKey kv (a, p) = (e1, a1, p1)"
    by (cases "xrefStreamKey kv (a, p)") auto
  then have x: "xref p1 = xref p" by (rule xrefStreamKey_xref)
  show ?case
  proof (cases e1)
    case None
    with k Cons.prems have "xrefStreamKeys d (a1, p1) = (e, a', p')" by simp
    from Cons.IH [OF this] x show ?thesis by simp
  next
    case (Some err)
    with k Cons.prems x show ?thesis by simp
  qed
qed

lemma readXRefStream_keeps:
  assumes "readXRefStream n L p addr = Some (r, p')"
  shows "keeps (xref p) (xref p')"
proof -
  have walk: "keeps (xref q) ys"
    if "xrefStreamWalk ix w dat (growTo (xref p) m) = (e, d, ys)" and "xref q = xref p"
    for q ix w dat m e d ys
    using xrefStreamWalk_keeps [OF that(1)] keeps_growTo [of "xref p" m] that(2)
    by (auto intro: keeps_trans)
  from assms show ?thesis
    by (auto simp: readXRefStream_def Let_def keeps_refl
        split: option.splits sum.splits Object.splits if_splits prod.splits
        dest!: xrefStreamKeys_xref walk)
qed

lemma tableLoop_keeps:
  "tableLoop k L p addr = Some (r, p') \<Longrightarrow> keeps (xref p) (xref p')"
proof (induction k arbitrary: p addr)
  case 0
  then show ?case by simp
next
  case (Suc k)
  from Suc.prems
  have "p' = p \<or> (\<exists>buf. readXRefTableSection L p addr buf = (r, p'))
        \<or> (\<exists>buf a q. readXRefTableSection L p addr buf = (Inr a, q) \<and> tableLoop k L q a = Some (r, p'))"
    by (auto split: option.splits if_splits prod.splits sum.splits)
  then show ?case
    by (auto simp: keeps_refl dest!: readXRefTableSection_keeps Suc.IH intro: keeps_trans)
qed

lemma trailerKeys_keeps:
  "trailerKeys n L d prev p = Some (e, prev', p') \<Longrightarrow> keeps (xref p) (xref p')"
proof (induction n L d prev p rule: trailerKeys.induct)
  case (1 n L prev p)
  then show ?case by (simp add: keeps_refl)
next
  case (2 n L key val kvs prev p)
  show ?case
  proof (cases "key = ''Prev''")
    case True
    with "2.prems" "2.IH"(1) show ?thesis
      by (auto simp: keeps_refl split: Object.splits)
  next
    case np: False
    show ?thesis
    proof (cases "key = ''XRefStm''")
      case True
      show ?thesis
      proof (cases "\<exists>v x q. val = OInt v \<and> readXRefStream n L p v = Some (Inr x, q)")
        case True
        then obtain v x q where v: "val = OInt v" and rs: "readXRefStream n L p v = Some (Inr x, q)"
          by blast
        with np \<open>key = ''XRefStm''\<close> "2.prems"
        have "trailerKeys n L kvs prev q = Some (e, prev', p')" by simp
        from "2.IH"(2) [OF np \<open>key = ''XRefStm''\<close> v rs refl refl this]
          readXRefStream_keeps [OF rs]
        show ?thesis by (rule keeps_trans [rotated])
      next
        case False
        with np \<open>key = ''XRefStm''\<close> "2.prems" show ?thesis
          by (auto simp: keeps_refl split: Object.splits option.splits sum.splits prod.splits
              dest!: readXRefStream_keeps)
      qed
    next
      case False
      with np "2.prems" have "trailerKeys n L kvs prev (mergeInfo p key val) = Some (e, prev', p')"
        by simp
      from "2.IH"(3) [OF np False this] show ?thesis by (simp add: xref_mergeInfo)
    qed
  qed
qed

lemma readXRefTable_keeps:
  "readXRefTable n L p addr = Some (r, p') \<Longrightarrow> keeps (xref p) (xref p')"
  by (auto simp: readXRefTable_def keeps_refl
      split: option.splits sum.splits Object.splits if_splits prod.splits
      dest!: tableLoop_keeps trailerKeys_keeps intro: keeps_trans)

lemma readXRefSection_keeps:
  "readXRefSection n L p addr = Some (r, p') \<Longrightarrow> keeps (xref p) (xref p')"
  by (auto simp: readXRefSection_def keeps_refl split: option.splits if_splits
      dest: readXRefTable_keeps readXRefStream_keeps)

lemma readXRefFrom_keeps:
  "readXRefFrom k n L p addr = Some (e, p') \<Longrightarrow> keeps (xref p) (xref p')"
proof (induction k arbitrary: p addr)
  case 0
  then show ?case by simp
next
  case (Suc k)
  from Suc.prems
  have "p' = p \<or> (\<exists>r. readXRefSection n L p addr = Some (r, p'))
        \<or> (\<exists>nx q. readXRefSection n L p addr = Some (Inr nx, q) \<and> readXRefFrom k n L q nx = Some (e, p'))"
    by (auto split: option.splits if_splits prod.splits sum.splits)
  then show ?case
    by (auto simp: keeps_refl dest!: readXRefSection_keeps Suc.IH intro: keeps_trans)
qed

lemma keepsD:
  "keeps xs ys \<Longrightarrow> i < length xs \<Longrightarrow> xs ! i \<noteq> XObject ONull \<Longrightarrow> i < length ys \<and> ys ! i = xs ! i"
  by (auto simp: keeps_def)

text \<open>
  C5 (first read wins).  A slot of the merged table that is filled is not overwritten:
  not by a section of a classic table, not by a cross-reference stream, and not by
  anything that readXRef reads from there on along the chain of Prev.  In particular
  (last part) what a slot holds once the section at \<open>addr\<close> has been read is what it
  holds when the rest of the chain has been read: the final entry of an object is the
  one of the first section on the chain that has one.  This holds for results and for
  error returns, and for every bound on the number of sections.
\<close>

theorem xref_slot_never_overwritten:
  assumes "i < length (xref p)" and "xref p ! i \<noteq> XObject ONull"
  shows "(readXRefTableSection L p addr line = (r1, p1) \<longrightarrow>
            i < length (xref p1) \<and> xref p1 ! i = xref p ! i)
       \<and> (readXRefStream n L p addr = Some (r2, p2) \<longrightarrow>
            i < length (xref p2) \<and> xref p2 ! i = xref p ! i)
       \<and> (readXRefFrom k n L p addr = Some (r3, p3) \<longrightarrow>
            i < length (xref p3) \<and> xref p3 ! i = xref p ! i)
       \<and> (readXRefSection n L p0 addr0 = Some (Inr nx, p) \<and> readXRefFrom k n L p nx = Some (r4, p4) \<longrightarrow>
            readXRefFrom (Suc k) n L p0 addr0 = (if addr0 = 0 then Some (None, p0) else Some (r4, p4))
            \<and> xref p4 ! i = xref p ! i)"
proof (intro conjI impI)
  assume "readXRefTableSection L p addr line = (r1, p1)"
  from keepsD [OF readXRefTableSection_keeps [OF this] assms]
  show "i < length (xref p1)" and "xref p1 ! i = xref p ! i" by simp_all
next
  assume "readXRefStream n L p addr = Some (r2, p2)"
  from keepsD [OF readXRefStream_keeps [OF this] assms]
  show "i < length (xref p2)" and "xref p2 ! i = xref p ! i" by simp_all
next
  assume "readXRefFrom k n L p addr = Some (r3, p3)"
  from keepsD [OF readXRefFrom_keeps [OF this] assms]
  show "i < length (xref p3)" and "xref p3 ! i = xref p ! i" by simp_all
next
  assume a: "readXRefSection n L p0 addr0 = Some (Inr nx, p) \<and> readXRefFrom k n L p nx = Some (r4, p4)"
  then show "readXRefFrom (Suc k) n L p0 addr0 = (if addr0 = 0 then Some (None, p0) else Some (r4, p4))"
    by simp
  from a have "readXRefFrom k n L p nx = Some (r4, p4)" by simp
  from keepsD [OF readXRefFrom_keeps [OF this] assms]
  show "xref p4 ! i = xref p ! i" by simp
qed

theorem xref_slot_never_overwritten_witness:
  "readXRefSection 30 exampleLib pdfStreamRev 163 = Some (Inr 30, pdfStreamRevNewest)
   \<and> xref pdfStreamRevNewest ! 1 = XDirect 142 0 ONull
   \<and> readXRefStream 30 exampleLib pdfStreamRevNewest 30 = Some (Inr 0, pdfStreamRevMerged)
   \<and> readXRefFrom 5 30 exampleLib pdfStreamRevNewest 30 = Some (None, pdfStreamRevMerged)
   \<and> readXRefFrom 6 30 exampleLib pdfStreamRev 163 = Some (None, pdfStreamRevMerged)
   \<and> xref pdfStreamRevMerged ! 1 = XDirect 142 0 ONull
   \<and> readXRefTableSection exampleLib pdfTwoRevsNewest 35 ''0 2\<newline>0000000000 65535'' =
       (Inr 79, pdfTwoRevsMerged)
   \<and> xref pdfTwoRevsMerged ! 1 = XDirect 118 0 ONull"
proof -
  have s1: "readXRefSection 30 exampleLib pdfStreamRev 163 = Some (Inr 30, pdfStreamRevNewest)"
    by code_simp
  have s2: "readXRefStream 30 exampleLib pdfStreamRevNewest 30 = Some (Inr 0, pdfStreamRevMerged)"
    by code_simp
  have s3: "readXRefFrom 5 30 exampleLib pdfStreamRevNewest 30 = Some (None, pdfStreamRevMerged)"
    by code_simp
  have t1: "readXRefTableSection exampleLib pdfTwoRevsNewest 35 ''0 2\<newline>0000000000 65535'' =
       (Inr 79, pdfTwoRevsMerged)"
    by code_simp
  have i1: "1 < length (xref pdfStreamRevNewest)" "xref pdfStreamRevNewest ! 1 \<noteq> XObject ONull"
    by (simp_all add: pdfStreamRevNewest_def)
  have i2: "1 < length (xref pdfTwoRevsNewest)" "xref pdfTwoRevsNewest ! 1 \<noteq> XObject ONull"
    by (simp_all add: pdfTwoRevsNewest_def)
  note A = xref_slot_never_overwritten [OF i1, where L = exampleLib and n = 30 and addr = 30
      and ?r2.0 = "Inr 0" and ?p2.0 = pdfStreamRevMerged and k = 5 and ?r3.0 = None
      and ?p3.0 = pdfStreamRevMerged and ?p0.0 = pdfStreamRev and ?addr0.0 = 163 and nx = 30
      and ?r4.0 = None and ?p4.0 = pdfStreamRevMerged]
  note B = xref_slot_never_overwritten [OF i2, where L = exampleLib and addr = 35
      and line = "''0 2\<newline>0000000000 65535''" and ?r1.0 = "Inr 79" and ?p1.0 = pdfTwoRevsMerged]
  from A s1 s2 s3 have a: "readXRefFrom 6 30 exampleLib pdfStreamRev 163 = Some (None, pdfStreamRevMerged)"
      "xref pdfStreamRevMerged ! 1 = xref pdfStreamRevNewest ! 1"
    by (simp_all add: eval_nat_numeral)
  from B t1 have b: "xref pdfTwoRevsMerged ! 1 = xref pdfTwoRevsNewest ! 1"
    by simp
  from a b s1 s2 s3 t1 show ?thesis
    by (simp add: pdfStreamRevNewest_def pdfTwoRevsNewest_def)
qed

end
